theory Spec2Isabelle
  imports Complex_Main
begin

section \<open>Arrays and errors\<close>

text \<open>
  The scripts compute with NumPy arrays of double precision numbers. The embedding takes
  the entries to be real numbers: a one-dimensional array is a list, a two-dimensional
  array is the list of its rows. Rounding, overflow and the non-finite values of the
  machine format are outside the embedding. A list of rows has no shape of its own: an
  array with an extent of zero is not told apart from the array with no row, and the
  properties of the array functions are stated for positive extents.

  An exception is a value of \<open>error\<close>: \<open>LinAlgError\<close> and \<open>ValueError\<close> are the two
  exceptions NumPy raises in the operations used here, \<open>Raised\<close> is any exception of a
  function supplied by the caller. \<open>NonFinite\<close> is not an exception: it marks a
  computation in which NumPy produces \<open>nan\<close>, which is no real number; the program goes on
  with it, the embedding does not follow it.
\<close>

type_synonym vec = "real list"
type_synonym mat = "real list list"

datatype error = LinAlgError string | ValueError string | Raised string | NonFinite string

text \<open>
  An elementwise operation on two one-dimensional arrays (\<open>a + b\<close>, \<open>a - b\<close>): on equal
  lengths it works entry by entry, an array of length one is broadcast along the other,
  anything else raises \<open>ValueError\<close>.
\<close>

definition np_broadcast1 :: "(real \<Rightarrow> real \<Rightarrow> real) \<Rightarrow> vec \<Rightarrow> vec \<Rightarrow> error + vec" where
  "np_broadcast1 f xs ys =
     (if length xs = length ys then Inr (map2 f xs ys)
      else if length xs = 1 then Inr (map (\<lambda>y. f (hd xs) y) ys)
      else if length ys = 1 then Inr (map (\<lambda>x. f x (hd ys)) xs)
      else Inl (ValueError ''operands could not be broadcast together''))"

definition np_add :: "vec \<Rightarrow> vec \<Rightarrow> error + vec" where
  "np_add xs ys = np_broadcast1 (+) xs ys"

definition np_sub :: "vec \<Rightarrow> vec \<Rightarrow> error + vec" where
  "np_sub xs ys = np_broadcast1 (-) xs ys"

text \<open>
  The shape of a two-dimensional array: its number of rows and the length of a row. All
  rows of an array have one length; an array without rows is taken to have no columns.
\<close>

definition ncols :: "mat \<Rightarrow> nat" where
  "ncols A = (case A of [] \<Rightarrow> 0 | r # _ \<Rightarrow> length r)"

definition is_matrix :: "nat \<Rightarrow> nat \<Rightarrow> mat \<Rightarrow> bool" where
  "is_matrix n m A = (length A = n \<and> list_all (\<lambda>r. length r = m) A)"

text \<open>
  An elementwise operation on two two-dimensional arrays with broadcasting: along each
  axis the two extents are equal or one of them is one, and the array of extent one is
  repeated along that axis.
\<close>

definition bdim :: "nat \<Rightarrow> nat \<Rightarrow> nat option" where
  "bdim a b = (if a = b then Some a else if a = 1 then Some b
               else if b = 1 then Some a else None)"

definition pick :: "nat \<Rightarrow> nat \<Rightarrow> nat" where
  "pick n i = (if n = 1 then 0 else i)"

definition np_broadcast2 :: "(real \<Rightarrow> real \<Rightarrow> real) \<Rightarrow> mat \<Rightarrow> mat \<Rightarrow> error + mat" where
  "np_broadcast2 f A B =
     (case (bdim (length A) (length B), bdim (ncols A) (ncols B)) of
        (Some n, Some m) \<Rightarrow>
          Inr (map (\<lambda>i. map (\<lambda>j. f (A ! pick (length A) i ! pick (ncols A) j)
                                   (B ! pick (length B) i ! pick (ncols B) j))
                         [0..<m])
                   [0..<n])
      | _ \<Rightarrow> Inl (ValueError ''operands could not be broadcast together''))"

text \<open>\<open>v[:, np.newaxis]\<close> is a column and \<open>v[np.newaxis, :]\<close> a row.\<close>

definition as_column :: "vec \<Rightarrow> mat" where
  "as_column v = map (\<lambda>x. [x]) v"

definition as_row :: "vec \<Rightarrow> mat" where
  "as_row v = [v]"

text \<open>\<open>A.T\<close>, the scalar multiples \<open>c * v\<close> and \<open>c * A\<close>, and \<open>np.eye(n)\<close>.\<close>

definition np_T :: "mat \<Rightarrow> mat" where
  "np_T A = map (\<lambda>j. map (\<lambda>r. r ! j) A) [0..<ncols A]"

definition smul_vec :: "real \<Rightarrow> vec \<Rightarrow> vec" where
  "smul_vec c v = map (\<lambda>x. c * x) v"

definition smul_mat :: "real \<Rightarrow> mat \<Rightarrow> mat" where
  "smul_mat c A = map (smul_vec c) A"

definition np_eye :: "nat \<Rightarrow> mat" where
  "np_eye n = map (\<lambda>i. map (\<lambda>j. if i = j then 1 else 0) [0..<n]) [0..<n]"

text \<open>
  The operator \<open>@\<close>: matrix by matrix, matrix by vector and vector by matrix. The inner
  extents have to agree, otherwise \<open>ValueError\<close> is raised; \<open>@\<close> does not broadcast them.
\<close>

definition dot :: "vec \<Rightarrow> vec \<Rightarrow> real" where
  "dot xs ys = sum_list (map2 (*) xs ys)"

definition mat_mul :: "mat \<Rightarrow> mat \<Rightarrow> mat" where
  "mat_mul A B = map (\<lambda>r. map (dot r) (np_T B)) A"

definition mat_vec :: "mat \<Rightarrow> vec \<Rightarrow> vec" where
  "mat_vec A v = map (\<lambda>r. dot r v) A"

definition vec_mat :: "vec \<Rightarrow> mat \<Rightarrow> vec" where
  "vec_mat v A = map (dot v) (np_T A)"

definition np_matmul :: "mat \<Rightarrow> mat \<Rightarrow> error + mat" where
  "np_matmul A B =
     (if ncols A = length B then Inr (mat_mul A B)
      else Inl (ValueError ''matmul: mismatch in its core dimension''))"

definition np_matvec :: "mat \<Rightarrow> vec \<Rightarrow> error + vec" where
  "np_matvec A v =
     (if ncols A = length v then Inr (mat_vec A v)
      else Inl (ValueError ''matmul: mismatch in its core dimension''))"

definition np_vecmat :: "vec \<Rightarrow> mat \<Rightarrow> error + vec" where
  "np_vecmat v A =
     (if length v = length A then Inr (vec_mat v A)
      else Inl (ValueError ''matmul: mismatch in its core dimension''))"

text \<open>
  The sum \<open>A + B\<close> of a dense array \<open>A\<close> and a SciPy sparse matrix \<open>B\<close>: the dense array
  is broadcast to the shape of the sparse matrix (\<open>np.broadcast_to\<close>), which raises
  \<open>ValueError\<close> unless each extent of \<open>A\<close> is that of \<open>B\<close> or one; the sparse matrix is
  not broadcast.
\<close>

definition add_dense_sparse :: "mat \<Rightarrow> mat \<Rightarrow> error + mat" where
  "add_dense_sparse A B =
     (if (length A = length B \<or> length A = 1) \<and> (ncols A = ncols B \<or> ncols A = 1) then
        Inr (map (\<lambda>i. map (\<lambda>j. A ! pick (length A) i ! pick (ncols A) j + B ! i ! j)
                       [0..<ncols B])
                 [0..<length B])
      else Inl (ValueError ''operands could not be broadcast together''))"

text \<open>
  \<open>np.exp(np.log(v))\<close>, entry by entry: a positive entry \<open>x\<close> gives \<open>exp (ln x)\<close>, which is
  \<open>x\<close>; the entry \<open>0\<close> gives \<open>0\<close>, since \<open>np.log(0)\<close> is \<open>-inf\<close> and \<open>np.exp(-inf)\<close> is \<open>0\<close>; a
  negative entry gives \<open>nan\<close>.
\<close>

definition np_exp_log :: "vec \<Rightarrow> error + vec" where
  "np_exp_log v =
     (if list_all (\<lambda>x. 0 \<le> x) v then Inr (map (\<lambda>x. if 0 < x then exp (ln x) else 0) v)
      else Inl (NonFinite ''nan''))"

text \<open>\<open>range(n)\<close>: the integers from \<open>0\<close> below \<open>n\<close>, none when \<open>n \<le> 0\<close>.\<close>

definition py_range :: "int \<Rightarrow> int list" where
  "py_range n = [0..n - 1]"

section \<open>The Gauss-Newton solver\<close>

text \<open>
  \<open>BaseProblem\<close> and \<open>InversionOptions\<close> belong to the inversion framework; only the
  attributes \<open>GaussNewton.__init__\<close> reads are kept. A callable of the problem may raise,
  so it returns a sum.
\<close>

record inv_problem =
  initial_model :: vec
  residual :: "vec \<Rightarrow> error + vec"
  jacobian :: "vec \<Rightarrow> error + mat"
  gradient :: "vec \<Rightarrow> error + vec"
  hessian :: "vec \<Rightarrow> error + mat"
  data_misfit :: "vec \<Rightarrow> error + real"
  data_misfit_defined :: bool
  regularisation :: "vec \<Rightarrow> error + real"
  regularisation_defined :: bool

record inv_options =
  niter :: int
  verbose :: bool

text \<open>The attributes of a \<open>GaussNewton\<close> object (\<open>self._niter\<close>, ...).\<close>

record GaussNewton =
  gn_niter :: int
  gn_verbose :: bool
  gn_model_0 :: vec
  gn_residual :: "vec \<Rightarrow> error + vec"
  gn_jacobian :: "vec \<Rightarrow> error + mat"
  gn_gradient :: "vec \<Rightarrow> error + vec"
  gn_hessian :: "vec \<Rightarrow> error + mat"
  gn_misfit :: "(vec \<Rightarrow> error + real) option"
  gn_reg :: "(vec \<Rightarrow> error + real) option"

definition GaussNewton_init :: "inv_problem \<Rightarrow> inv_options \<Rightarrow> GaussNewton" where
  "GaussNewton_init inv_problem inv_options =
     \<lparr> gn_niter = niter inv_options,
       gn_verbose = verbose inv_options,
       gn_model_0 = initial_model inv_problem,
       gn_residual = residual inv_problem,
       gn_jacobian = jacobian inv_problem,
       gn_gradient = gradient inv_problem,
       gn_hessian = hessian inv_problem,
       gn_misfit = (if data_misfit_defined inv_problem
                    then Some (data_misfit inv_problem) else None),
       gn_reg = (if regularisation_defined inv_problem
                 then Some (regularisation inv_problem) else None) \<rparr>"

text \<open>
  What a run does besides computing its result is recorded as a list of events, in the
  order they happen: the calls of the supplied functions and of the linear solver, and the
  lines printed.
\<close>

datatype event =
    Call_hessian vec
  | Call_gradient vec
  | Call_solve mat vec
  | Call_misfit vec
  | Call_reg vec
  | Print_line string
  | Print_iteration int
  | Print_value real

text \<open>\<open>if f: print(f(current_model))\<close> for an optional reporting function \<open>f\<close>.\<close>

definition print_if_defined ::
  "(vec \<Rightarrow> error + real) option \<Rightarrow> (vec \<Rightarrow> event) \<Rightarrow> vec \<Rightarrow> (error + unit) \<times> event list" where
  "print_if_defined f called m =
     (case f of
        None \<Rightarrow> (Inr (), [])
      | Some h \<Rightarrow>
          (case h m of
             Inl e \<Rightarrow> (Inl e, [called m])
           | Inr v \<Rightarrow> (Inr (), [called m, Print_value v])))"

text \<open>The \<open>if self._verbose:\<close> block at the end of iteration \<open>i\<close>.\<close>

definition report :: "GaussNewton \<Rightarrow> int \<Rightarrow> vec \<Rightarrow> (error + unit) \<times> event list" where
  "report s i current_model =
     (if gn_verbose s then
        (let head = [Print_line (replicate 80 (CHR ''-'')), Print_iteration (i + 1)] in
         case print_if_defined (gn_misfit s) Call_misfit current_model of
           (Inl e, ev1) \<Rightarrow> (Inl e, head @ ev1)
         | (Inr _, ev1) \<Rightarrow>
             (case print_if_defined (gn_reg s) Call_reg current_model of
                (r, ev2) \<Rightarrow> (r, head @ ev1 @ ev2)))
      else (Inr (), []))"

text \<open>
  The body of the \<open>for\<close> loop at iteration \<open>i\<close>, from the current model to the next one.
  \<open>solve\<close> stands for \<open>np.linalg.solve\<close>, which is not code of the repository.
\<close>

definition loop_body ::
  "(mat \<Rightarrow> vec \<Rightarrow> error + vec) \<Rightarrow> GaussNewton \<Rightarrow> int \<Rightarrow> vec \<Rightarrow> (error + vec) \<times> event list" where
  "loop_body solve s i current_model =
     (case gn_hessian s current_model of
        Inl e \<Rightarrow> (Inl e, [Call_hessian current_model])
      | Inr term1 \<Rightarrow>
          (case gn_gradient s current_model of
             Inl e \<Rightarrow> (Inl e, [Call_hessian current_model, Call_gradient current_model])
           | Inr g \<Rightarrow>
               (let term2 = map uminus g;
                    ev = [Call_hessian current_model, Call_gradient current_model,
                          Call_solve term1 term2] in
                case solve term1 term2 of
                  Inl e \<Rightarrow> (Inl e, ev)
                | Inr model_update \<Rightarrow>
                    (case np_add current_model model_update of
                       Inl e \<Rightarrow> (Inl e, ev)
                     | Inr new_model \<Rightarrow>
                         (case report s i new_model of
                            (Inl e, evr) \<Rightarrow> (Inl e, ev @ evr)
                          | (Inr _, evr) \<Rightarrow> (Inr new_model, ev @ evr))))))"

text \<open>The \<open>for\<close> loop over the values of \<open>range(self._niter)\<close> still to come.\<close>

fun gn_loop ::
  "(mat \<Rightarrow> vec \<Rightarrow> error + vec) \<Rightarrow> GaussNewton \<Rightarrow> int list \<Rightarrow> vec \<Rightarrow> (error + vec) \<times> event list" where
  "gn_loop solve s [] current_model = (Inr current_model, [])"
| "gn_loop solve s (i # rest) current_model =
     (case loop_body solve s i current_model of
        (Inl e, ev) \<Rightarrow> (Inl e, ev)
      | (Inr new_model, ev) \<Rightarrow>
          (case gn_loop solve s rest new_model of
             (r, ev') \<Rightarrow> (r, ev @ ev')))"

text \<open>The dictionary \<open>{"model": ..., "success": True}\<close> that \<open>__call__\<close> returns.\<close>

record gn_result =
  model :: vec
  success :: bool

definition GaussNewton_call ::
  "(mat \<Rightarrow> vec \<Rightarrow> error + vec) \<Rightarrow> GaussNewton \<Rightarrow> (error + gn_result) \<times> event list" where
  "GaussNewton_call solve s =
     (let current_model = gn_model_0 s in
      case gn_loop solve s (py_range (gn_niter s)) current_model of
        (Inl e, ev) \<Rightarrow> (Inl e, ev)
      | (Inr final_model, ev) \<Rightarrow> (Inr \<lparr> model = final_model, success = True \<rparr>, ev))"

section \<open>Objective, gradient and Hessian of the resistivity problems\<close>

text \<open>
  The forward operator is an object of the modelling library. Two of its operations are
  used: \<open>response(model)\<close>, and \<open>createJacobian(model)\<close> followed by \<open>jacobian()\<close>,
  which is one operation here. Both may raise.
\<close>

record forward_operator =
  fop_response :: "vec \<Rightarrow> error + vec"
  fop_jacobian :: "vec \<Rightarrow> error + mat"

text \<open>
  The line \<open>jac = J / np.exp(response[:, np.newaxis]) * w[np.newaxis, :]\<close>, which the
  three files share up to the vector \<open>w\<close>. The quotient is computed first, then \<open>w\<close>,
  then the product.
\<close>

definition rescale :: "mat \<Rightarrow> vec \<Rightarrow> error + vec \<Rightarrow> error + mat" where
  "rescale J response w =
     (case np_broadcast2 (/) J (as_column (map exp response)) of
        Inl e \<Rightarrow> Inl e
      | Inr Q \<Rightarrow>
          (case w of
             Inl e \<Rightarrow> Inl e
           | Inr w' \<Rightarrow> np_broadcast2 (*) Q (as_row w')))"

subsection \<open>\<open>pygimli_ert_gauss_newton.py\<close> and \<open>pygimli_ert_scipy_minimize.py\<close>\<close>

text \<open>
  The two scripts define \<open>get_response\<close>, \<open>get_residual\<close>, \<open>get_jacobian\<close>,
  \<open>get_jac_residual\<close> and \<open>get_hessian\<close> with the same text; they differ in
  \<open>get_gradient\<close>. In \<open>get_response\<close>, \<open>ln\<close> stands for \<open>np.log\<close>: at a response that is
  not positive NumPy gives \<open>-inf\<close> or \<open>nan\<close> and the value of \<open>ln\<close> says nothing about the
  program, so a property that depends on the logarithm of the response is one of positive
  responses. In \<open>get_jacobian\<close> and \<open>get_jac_residual\<close> the factor
  \<open>np.exp(np.log(model))\<close> is \<open>np_exp_log\<close>: the model itself where it is positive.
\<close>

definition ert_get_response :: "vec \<Rightarrow> forward_operator \<Rightarrow> error + vec" where
  "ert_get_response model_vec fop =
     (case fop_response fop model_vec of
        Inl e \<Rightarrow> Inl e
      | Inr r \<Rightarrow> Inr (map ln r))"

definition ert_get_residual :: "vec \<Rightarrow> vec \<Rightarrow> forward_operator \<Rightarrow> error + vec" where
  "ert_get_residual model_vec log_data fop =
     (case ert_get_response model_vec fop of
        Inl e \<Rightarrow> Inl e
      | Inr response \<Rightarrow> np_sub log_data response)"

definition ert_get_jacobian :: "vec \<Rightarrow> forward_operator \<Rightarrow> error + mat" where
  "ert_get_jacobian model_vec fop =
     (case ert_get_response model_vec fop of
        Inl e \<Rightarrow> Inl e
      | Inr response \<Rightarrow>
          (case fop_jacobian fop model_vec of
             Inl e \<Rightarrow> Inl e
           | Inr J \<Rightarrow> rescale J response (np_exp_log model_vec)))"

definition ert_get_jac_residual ::
  "vec \<Rightarrow> vec \<Rightarrow> forward_operator \<Rightarrow> error + (mat \<times> vec)" where
  "ert_get_jac_residual model_vec log_data fop =
     (case ert_get_response model_vec fop of
        Inl e \<Rightarrow> Inl e
      | Inr response \<Rightarrow>
          (case np_sub log_data response of
             Inl e \<Rightarrow> Inl e
           | Inr residual_vec \<Rightarrow>
               (case fop_jacobian fop model_vec of
                  Inl e \<Rightarrow> Inl e
                | Inr J \<Rightarrow>
                    (case rescale J response (np_exp_log model_vec) of
                       Inl e \<Rightarrow> Inl e
                     | Inr jac \<Rightarrow> Inr (jac, residual_vec)))))"

text \<open>
  \<open>get_gradient\<close> of the Gauss-Newton script. \<open>- 2 * residual @ jac\<close> is
  \<open>((-2) * residual) @ jac\<close> and \<open>2 * lamda * Wm.T @ Wm @ model\<close> is
  \<open>(((2 * lamda) * Wm.T) @ Wm) @ model\<close>: \<open>*\<close> and \<open>@\<close> have one precedence and
  associate to the left.
\<close>

definition gauss_newton_get_gradient ::
  "vec \<Rightarrow> vec \<Rightarrow> forward_operator \<Rightarrow> mat \<Rightarrow> real \<Rightarrow> error + vec" where
  "gauss_newton_get_gradient model_vec log_data fop Wm lamda =
     (case ert_get_jac_residual model_vec log_data fop of
        Inl e \<Rightarrow> Inl e
      | Inr (jac, residual_vec) \<Rightarrow>
          (case np_vecmat (smul_vec (- 2) residual_vec) jac of
             Inl e \<Rightarrow> Inl e
           | Inr data_misfit_grad \<Rightarrow>
               (case np_matmul (smul_mat (2 * lamda) (np_T Wm)) Wm of
                  Inl e \<Rightarrow> Inl e
                | Inr WtW \<Rightarrow>
                    (case np_matvec WtW model_vec of
                       Inl e \<Rightarrow> Inl e
                     | Inr regularisation_grad \<Rightarrow>
                         np_add data_misfit_grad regularisation_grad))))"

text \<open>\<open>get_gradient\<close> of the SciPy script.\<close>

definition scipy_minimize_get_gradient ::
  "vec \<Rightarrow> vec \<Rightarrow> forward_operator \<Rightarrow> mat \<Rightarrow> real \<Rightarrow> error + vec" where
  "scipy_minimize_get_gradient model_vec log_data fop Wm lamda =
     (case ert_get_jac_residual model_vec log_data fop of
        Inl e \<Rightarrow> Inl e
      | Inr (jac, residual_vec) \<Rightarrow>
          (case np_vecmat (map uminus residual_vec) jac of
             Inl e \<Rightarrow> Inl e
           | Inr data_misfit_grad \<Rightarrow>
               (case np_matmul (smul_mat lamda (np_T Wm)) Wm of
                  Inl e \<Rightarrow> Inl e
                | Inr WtW \<Rightarrow>
                    (case np_matvec WtW model_vec of
                       Inl e \<Rightarrow> Inl e
                     | Inr regularisation_grad \<Rightarrow>
                         np_add data_misfit_grad regularisation_grad))))"

definition ert_get_hessian ::
  "vec \<Rightarrow> vec \<Rightarrow> forward_operator \<Rightarrow> mat \<Rightarrow> real \<Rightarrow> error + mat" where
  "ert_get_hessian model_vec log_data fop Wm lamda =
     (case ert_get_jacobian model_vec fop of
        Inl e \<Rightarrow> Inl e
      | Inr jac \<Rightarrow>
          (case np_matmul (np_T jac) jac of
             Inl e \<Rightarrow> Inl e
           | Inr JtJ \<Rightarrow>
               (case np_matmul (smul_mat lamda (np_T Wm)) Wm of
                  Inl e \<Rightarrow> Inl e
                | Inr WtW \<Rightarrow> add_dense_sparse JtJ WtW)))"

subsection \<open>\<open>pygimli_dcip_lib.py\<close>\<close>

text \<open>
  The functions of this file take the model in log space. \<open>squeezeComplex\<close> is a
  function of the modelling library and a parameter here. The line \<open>print(x_re_im)\<close> of
  \<open>get_response\<close> is left out: no result depends on it. As above, \<open>ln\<close> stands for
  \<open>np.log\<close> and says nothing about the program at a response that is not positive.
\<close>

definition dcip_get_response ::
  "(vec \<Rightarrow> vec) \<Rightarrow> vec \<Rightarrow> forward_operator \<Rightarrow> error + vec" where
  "dcip_get_response squeezeComplex model_vec fop =
     (let x_re_im = map exp (squeezeComplex model_vec) in
      case fop_response fop x_re_im of
        Inl e \<Rightarrow> Inl e
      | Inr r \<Rightarrow> Inr (map ln r))"

definition dcip_get_jacobian ::
  "(vec \<Rightarrow> vec) \<Rightarrow> vec \<Rightarrow> forward_operator \<Rightarrow> error + mat" where
  "dcip_get_jacobian squeezeComplex model_vec fop =
     (case dcip_get_response squeezeComplex model_vec fop of
        Inl e \<Rightarrow> Inl e
      | Inr response \<Rightarrow>
          (case fop_jacobian fop (map exp model_vec) of
             Inl e \<Rightarrow> Inl e
           | Inr J \<Rightarrow> rescale J response (Inr (map exp model_vec))))"

definition dcip_get_hessian ::
  "(vec \<Rightarrow> vec) \<Rightarrow> vec \<Rightarrow> vec \<Rightarrow> forward_operator \<Rightarrow> mat \<Rightarrow> real \<Rightarrow> mat option \<Rightarrow> error + mat" where
  "dcip_get_hessian squeezeComplex model_vec log_data fop Wm lamda data_cov_inv =
     (case dcip_get_jacobian squeezeComplex model_vec fop of
        Inl e \<Rightarrow> Inl e
      | Inr jac \<Rightarrow>
          (let C = (case data_cov_inv of None \<Rightarrow> np_eye (length log_data) | Some C' \<Rightarrow> C') in
           case np_matmul (np_T jac) C of
             Inl e \<Rightarrow> Inl e
           | Inr JtC \<Rightarrow>
               (case np_matmul JtC jac of
                  Inl e \<Rightarrow> Inl e
                | Inr JtCJ \<Rightarrow>
                    (case np_matmul (smul_mat lamda (np_T Wm)) Wm of
                       Inl e \<Rightarrow> Inl e
                     | Inr WtW \<Rightarrow> add_dense_sparse JtCJ WtW))))"

section \<open>The update rule, as the specification words it\<close>

text \<open>
  One update step as the specification states it: evaluate \<open>H = hessian(m)\<close> and
  \<open>g = gradient(m)\<close>, solve \<open>H \<cdot> delta = -g\<close>, return \<open>m + delta\<close>. Any failure on the
  way is the failure of the step.
\<close>

definition newton_update ::
  "(vec \<Rightarrow> error + mat) \<Rightarrow> (vec \<Rightarrow> error + vec) \<Rightarrow> (mat \<Rightarrow> vec \<Rightarrow> error + vec) \<Rightarrow> vec \<Rightarrow> error + vec" where
  "newton_update hess grad solve m =
     (case hess m of
        Inl e \<Rightarrow> Inl e
      | Inr H \<Rightarrow>
          (case grad m of
             Inl e \<Rightarrow> Inl e
           | Inr g \<Rightarrow>
               (case solve H (map uminus g) of
                  Inl e \<Rightarrow> Inl e
                | Inr delta \<Rightarrow> np_add m delta)))"

text \<open>\<open>n\<close> update steps in a row, the last one applied to the result of the first \<open>n - 1\<close>.\<close>

fun run_steps :: "nat \<Rightarrow> (vec \<Rightarrow> error + vec) \<Rightarrow> vec \<Rightarrow> error + vec" where
  "run_steps 0 step m = Inr m"
| "run_steps (Suc n) step m =
     (case run_steps n step m of Inl e \<Rightarrow> Inl e | Inr m' \<Rightarrow> step m')"

text \<open>
  The reporting functions (data misfit and regularisation) are called only to print their
  values. \<open>reporting_cannot_raise\<close> holds when the run does not report, or when each
  reporting function that is defined returns a value on every model.
\<close>

definition returns_value :: "(vec \<Rightarrow> error + real) option \<Rightarrow> bool" where
  "returns_value f = (case f of None \<Rightarrow> True | Some h \<Rightarrow> (\<forall>m. \<exists>v. h m = Inr v))"

definition reporting_cannot_raise :: "GaussNewton \<Rightarrow> bool" where
  "reporting_cannot_raise s =
     (\<not> gn_verbose s \<or> (returns_value (gn_misfit s) \<and> returns_value (gn_reg s)))"

text \<open>The events that are calls of the linear solver: one per update step.\<close>

fun is_solve :: "event \<Rightarrow> bool" where
  "is_solve (Call_solve A b) = True"
| "is_solve _ = False"

section \<open>The linear solver\<close>


definition solution_has_length :: "nat \<Rightarrow> (mat \<Rightarrow> vec \<Rightarrow> error + vec) \<Rightarrow> bool" where
  "solution_has_length M solve =
     (\<forall>H b x. is_matrix M M H \<and> length b = M \<and> solve H b = Inr x \<longrightarrow> length x = M)"



text \<open>
  A solver for systems of one and two unknowns by Cramer's rule, the solver of the
  examples. It raises on every singular matrix of these sizes.
\<close>

definition cramer_solve :: "mat \<Rightarrow> vec \<Rightarrow> error + vec" where
  "cramer_solve A y =
     (if is_matrix 2 2 A \<and> length y = 2 then
        (let a = A ! 0 ! 0; b = A ! 0 ! 1; c = A ! 1 ! 0; d = A ! 1 ! 1;
             det = a * d - b * c in
         if det = 0 then Inl (LinAlgError ''Singular matrix'')
         else Inr [(y ! 0 * d - b * y ! 1) / det, (a * y ! 1 - y ! 0 * c) / det])
      else if is_matrix 1 1 A \<and> length y = 1 then
        (if A ! 0 ! 0 = 0 then Inl (LinAlgError ''Singular matrix'')
         else Inr [y ! 0 / (A ! 0 ! 0)])
      else Inl (LinAlgError ''cramer_solve: more than two unknowns''))"


section \<open>Example problems\<close>

text \<open>
  The objective \<open>(x - 1)\<^sup>2 + (y + 2)\<^sup>2\<close> with its gradient and Hessian; the run reports the
  sum of squares of the model. One update step from any model reaches \<open>[1, -2]\<close>.
\<close>

definition quadratic_gradient :: "vec \<Rightarrow> error + vec" where
  "quadratic_gradient m = Inr (map2 (\<lambda>x c. 2 * (x - c)) m [1, - 2])"

definition quadratic_hessian :: "vec \<Rightarrow> error + mat" where
  "quadratic_hessian m = Inr [[2, 0], [0, 2]]"

definition sum_of_squares :: "vec \<Rightarrow> error + real" where
  "sum_of_squares m = Inr (sum_list (map (\<lambda>x. x * x) m))"

definition quadratic_problem :: inv_problem where
  "quadratic_problem =
     \<lparr> initial_model = [0, 0],
       residual = (\<lambda>m. Inl (Raised ''NotImplementedError'')),
       jacobian = (\<lambda>m. Inl (Raised ''NotImplementedError'')),
       gradient = quadratic_gradient, hessian = quadratic_hessian,
       data_misfit = sum_of_squares, data_misfit_defined = True,
       regularisation = (\<lambda>m. Inl (Raised ''NotImplementedError'')),
       regularisation_defined = False \<rparr>"

definition quadratic_solver :: GaussNewton where
  "quadratic_solver = GaussNewton_init quadratic_problem \<lparr> niter = 2, verbose = True \<rparr>"

text \<open>The same problem without its misfit function, solved without reporting.\<close>

definition quiet_quadratic_solver :: GaussNewton where
  "quiet_quadratic_solver =
     GaussNewton_init (quadratic_problem\<lparr>data_misfit_defined := False\<rparr>)
       \<lparr> niter = 2, verbose = False \<rparr>"



section \<open>The Hessian, as the specification words it\<close>

text \<open>
  Entry \<open>(i, j)\<close> of \<open>J\<^sup>T \<cdot> C \<cdot> J + lambda \<cdot> Wm\<^sup>T \<cdot> Wm\<close>, where \<open>C\<close> stands for the weighting
  the specification writes \<open>C\<^sup>-\<^sup>1\<close>.
\<close>

definition hessian_entry :: "mat \<Rightarrow> mat \<Rightarrow> real \<Rightarrow> mat \<Rightarrow> nat \<Rightarrow> nat \<Rightarrow> real" where
  "hessian_entry J C lamda Wm i j =
     (\<Sum>k<length J. \<Sum>l<length J. J ! k ! i * C ! k ! l * J ! l ! j)
     + lamda * (\<Sum>k<length Wm. Wm ! k ! i * Wm ! k ! j)"

section \<open>An example forward operator\<close>

text \<open>
  Two observations of one unknown \<open>x\<close>, both with response \<open>exp x\<close>: the logarithm of the
  response is \<open>G \<cdot> [x]\<close> for \<open>G = [[1], [1]]\<close>. The Jacobian the operator supplies is such
  that its rescaling by \<open>get_jacobian\<close> of the two resistivity scripts is \<open>G\<close> at every
  positive \<open>x\<close>.
\<close>

definition constant_fit_operator :: forward_operator where
  "constant_fit_operator =
     \<lparr> fop_response = (\<lambda>x. Inr [exp (x ! 0), exp (x ! 0)]),
       fop_jacobian = (\<lambda>x. Inr [[exp (x ! 0) / x ! 0], [exp (x ! 0) / x ! 0]]) \<rparr>"


section \<open>Properties of the solver loop\<close>

lemma print_if_defined_ok:
  "returns_value f \<Longrightarrow> fst (print_if_defined f c m) = Inr ()"
  by (auto simp: returns_value_def print_if_defined_def split: option.splits sum.splits)
     (metis Inl_Inr_False)

lemma report_ok: "reporting_cannot_raise s \<Longrightarrow> fst (report s i m) = Inr ()"
  unfolding reporting_cannot_raise_def report_def
  using print_if_defined_ok[of "gn_misfit s" Call_misfit m] print_if_defined_ok[of "gn_reg s" Call_reg m]
  by (auto simp: Let_def split: prod.splits sum.splits)

lemma print_if_defined_no_solve:
  "print_if_defined f Call_misfit m = (r, ev) \<Longrightarrow> filter is_solve ev = []"
  "print_if_defined f Call_reg m = (r, ev) \<Longrightarrow> filter is_solve ev = []"
  by (auto simp: print_if_defined_def split: option.splits sum.splits)

lemma report_no_solve: "report s i m = (r, ev) \<Longrightarrow> filter is_solve ev = []"
  by (auto simp: report_def Let_def split: prod.splits sum.splits if_splits
      dest: print_if_defined_no_solve)

lemma loop_body_Inr:
  "fst (loop_body solve s i m) = Inr m' \<Longrightarrow> newton_update (gn_hessian s) (gn_gradient s) solve m = Inr m'"
  by (auto simp: loop_body_def newton_update_def Let_def split: sum.splits prod.splits)

lemma loop_body_total:
  "reporting_cannot_raise s \<Longrightarrow>
   fst (loop_body solve s i m) = newton_update (gn_hessian s) (gn_gradient s) solve m"
proof -
  assume a: "reporting_cannot_raise s"
  have r: "\<And>x. \<exists>ev. report s i x = (Inr (), ev)"
    using report_ok[OF a, of i] by (metis prod.collapse)
  show ?thesis
  proof (cases "newton_update (gn_hessian s) (gn_gradient s) solve m")
    case (Inl e)
    then show ?thesis
      by (auto simp: loop_body_def newton_update_def Let_def split: sum.splits prod.splits)
  next
    case (Inr m')
    obtain ev where "report s i m' = (Inr (), ev)" using r by blast
    with Inr show ?thesis
      by (auto simp: loop_body_def newton_update_def Let_def split: sum.splits)
  qed
qed

lemma loop_body_solves:
  "loop_body solve s i m = (Inr m', ev) \<Longrightarrow> length (filter is_solve ev) = 1"
  by (auto simp: loop_body_def Let_def split: sum.splits prod.splits dest: report_no_solve)

lemma run_steps_front:
  "run_steps (Suc n) step m = (case step m of Inl e \<Rightarrow> Inl e | Inr m' \<Rightarrow> run_steps n step m')"
  by (induction n) (auto split: sum.splits)

lemma gn_loop_run_steps:
  "reporting_cannot_raise s \<Longrightarrow>
   fst (gn_loop solve s xs m) = run_steps (length xs) (newton_update (gn_hessian s) (gn_gradient s) solve) m"
proof (induction xs arbitrary: m)
  case Nil
  then show ?case by simp
next
  case (Cons i rest)
  let ?step = "newton_update (gn_hessian s) (gn_gradient s) solve"
  have b: "fst (loop_body solve s i m) = ?step m"
    by (rule loop_body_total[OF Cons.prems])
  have len: "length (i # rest) = Suc (length rest)" by simp
  show ?case
  proof (cases "?step m")
    case (Inl e)
    with b show ?thesis
      unfolding len run_steps_front by (cases "loop_body solve s i m") simp
  next
    case (Inr m')
    with b Cons.IH[OF Cons.prems, of m'] show ?thesis
      unfolding len run_steps_front
      by (cases "loop_body solve s i m"; cases "gn_loop solve s rest m'") simp
  qed
qed

lemma gn_loop_solves:
  "gn_loop solve s xs m = (Inr m', ev) \<Longrightarrow> length (filter is_solve ev) = length xs"
proof (induction xs arbitrary: m ev)
  case Nil
  then show ?case by simp
next
  case (Cons i rest)
  then show ?case
    by (auto split: sum.splits prod.splits dest: loop_body_solves)
qed

lemma length_py_range: "length (py_range n) = nat n"
  by (simp add: py_range_def)

lemma gn_loop_Inr:
  "gn_loop solve s xs m = (Inr m', ev) \<Longrightarrow>
   run_steps (length xs) (newton_update (gn_hessian s) (gn_gradient s) solve) m = Inr m'"
proof (induction xs arbitrary: m ev)
  case Nil
  then show ?case by simp
next
  case (Cons i rest)
  have len: "length (i # rest) = Suc (length rest)" by simp
  from Cons.prems obtain m1 ev1 ev2 where
    b: "loop_body solve s i m = (Inr m1, ev1)" and l: "gn_loop solve s rest m1 = (Inr m', ev2)"
    by (auto split: sum.splits prod.splits)
  from b have "newton_update (gn_hessian s) (gn_gradient s) solve m = Inr m1"
    using loop_body_Inr[of solve s i m m1] by simp
  with Cons.IH[OF l] show ?case
    unfolding len run_steps_front by simp
qed

lemma call_run_steps:
  "reporting_cannot_raise s \<Longrightarrow>
   fst (GaussNewton_call solve s) =
     map_sum id (\<lambda>m. \<lparr> model = m, success = True \<rparr>)
       (run_steps (nat (gn_niter s)) (newton_update (gn_hessian s) (gn_gradient s) solve)
          (gn_model_0 s))"
  using gn_loop_run_steps[of s solve "py_range (gn_niter s)" "gn_model_0 s"]
  by (cases "gn_loop solve s (py_range (gn_niter s)) (gn_model_0 s)")
     (auto simp: GaussNewton_call_def length_py_range split: sum.splits)

lemma call_Inr:
  assumes "GaussNewton_call solve s = (Inr r, ev)"
  shows "success r = True"
    and "run_steps (nat (gn_niter s)) (newton_update (gn_hessian s) (gn_gradient s) solve)
           (gn_model_0 s) = Inr (model r)"
    and "length (filter is_solve ev) = nat (gn_niter s)"
proof -
  from assms obtain m where
    l: "gn_loop solve s (py_range (gn_niter s)) (gn_model_0 s) = (Inr m, ev)"
    and r: "r = \<lparr> model = m, success = True \<rparr>"
    by (auto simp: GaussNewton_call_def split: sum.splits prod.splits)
  show "success r = True" using r by simp
  show "run_steps (nat (gn_niter s)) (newton_update (gn_hessian s) (gn_gradient s) solve)
           (gn_model_0 s) = Inr (model r)"
    using gn_loop_Inr[OF l] r by (simp add: length_py_range)
  show "length (filter is_solve ev) = nat (gn_niter s)"
    using gn_loop_solves[OF l] by (simp add: length_py_range)
qed

subsection \<open>The examples\<close>

lemma cramer_solution_has_length: "solution_has_length 2 cramer_solve"
  unfolding solution_has_length_def cramer_solve_def
  by (auto simp: Let_def split: if_splits)

lemma quadratic_solver_fields:
  "quadratic_solver =
     \<lparr> gn_niter = 2, gn_verbose = True, gn_model_0 = [0, 0],
       gn_residual = (\<lambda>m. Inl (Raised ''NotImplementedError'')),
       gn_jacobian = (\<lambda>m. Inl (Raised ''NotImplementedError'')),
       gn_gradient = quadratic_gradient, gn_hessian = quadratic_hessian,
       gn_misfit = Some sum_of_squares, gn_reg = None \<rparr>"
  by (simp add: quadratic_solver_def GaussNewton_init_def quadratic_problem_def)

lemma quiet_quadratic_solver_fields:
  "quiet_quadratic_solver =
     \<lparr> gn_niter = 2, gn_verbose = False, gn_model_0 = [0, 0],
       gn_residual = (\<lambda>m. Inl (Raised ''NotImplementedError'')),
       gn_jacobian = (\<lambda>m. Inl (Raised ''NotImplementedError'')),
       gn_gradient = quadratic_gradient, gn_hessian = quadratic_hessian,
       gn_misfit = None, gn_reg = None \<rparr>"
  by (simp add: quiet_quadratic_solver_def GaussNewton_init_def quadratic_problem_def)

lemma quadratic_reporting: "reporting_cannot_raise quadratic_solver"
  by (simp add: reporting_cannot_raise_def returns_value_def quadratic_solver_fields
      sum_of_squares_def)

lemma quadratic_step:
  "newton_update quadratic_hessian quadratic_gradient cramer_solve [a, b] = Inr [1, - 2]"
  by (simp add: newton_update_def quadratic_hessian_def quadratic_gradient_def
      cramer_solve_def is_matrix_def np_add_def np_broadcast1_def Let_def field_simps)

lemma quadratic_call:
  "0 < k \<Longrightarrow>
   fst (GaussNewton_call cramer_solve (quadratic_solver\<lparr>gn_niter := k\<rparr>)) =
     Inr \<lparr> model = [1, - 2], success = True \<rparr>"
proof -
  assume k: "0 < k"
  have r: "reporting_cannot_raise (quadratic_solver\<lparr>gn_niter := k\<rparr>)"
    using quadratic_reporting by (simp add: reporting_cannot_raise_def)
  have steps: "\<And>a b. run_steps (Suc n)
      (newton_update quadratic_hessian quadratic_gradient cramer_solve) [a, b] = Inr [1, - 2]" for n
    by (induction n) (simp_all add: quadratic_step)
  obtain n where n: "nat k = Suc n" using k by (cases "nat k") auto
  show ?thesis
    unfolding call_run_steps[OF r]
    by (simp add: quadratic_solver_fields n steps del: run_steps.simps)
qed



subsection \<open>The claims\<close>

text \<open>
  Claim C1. A run of the solver performs \<open>niter\<close> update steps, each evaluating the
  Hessian and the gradient at the current model, solving \<open>H \<cdot> delta = -g\<close> and adding
  \<open>delta\<close>; it returns the model after the last step with the success flag \<open>True\<close>.
  When reporting cannot raise, the outcome of the run (result or exception) is that of
  \<open>niter\<close> update steps from the initial model. Whenever the run returns, the flag is
  \<open>True\<close>, the model is the one after \<open>niter\<close> update steps, and the linear solver was
  called \<open>niter\<close> times.
\<close>

theorem gauss_newton_performs_niter_updates:
  "(reporting_cannot_raise s \<longrightarrow>
      fst (GaussNewton_call solve s) =
        map_sum id (\<lambda>m. \<lparr> model = m, success = True \<rparr>)
          (run_steps (nat (gn_niter s)) (newton_update (gn_hessian s) (gn_gradient s) solve)
             (gn_model_0 s)))
   \<and> (\<forall>r ev. GaussNewton_call solve s = (Inr r, ev) \<longrightarrow>
         success r = True
         \<and> run_steps (nat (gn_niter s)) (newton_update (gn_hessian s) (gn_gradient s) solve)
             (gn_model_0 s) = Inr (model r)
         \<and> length (filter is_solve ev) = nat (gn_niter s))"
  using call_run_steps[of s solve] call_Inr[of solve s] by blast

text \<open>
  The run on the quadratic example: two iterations, reporting on, result \<open>[1, -2]\<close>.
\<close>

theorem gauss_newton_performs_niter_updates_witness:
  "reporting_cannot_raise quadratic_solver
   \<and> fst (GaussNewton_call cramer_solve quadratic_solver) =
       Inr \<lparr> model = [1, - 2], success = True \<rparr>"
proof -
  have g: "gn_hessian quadratic_solver = quadratic_hessian"
    "gn_gradient quadratic_solver = quadratic_gradient"
    "gn_model_0 quadratic_solver = [0, 0]" "nat (gn_niter quadratic_solver) = Suc (Suc 0)"
    by (simp_all add: quadratic_solver_fields)
  from gauss_newton_performs_niter_updates[of quadratic_solver cramer_solve]
    quadratic_reporting
  have "fst (GaussNewton_call cramer_solve quadratic_solver) =
        map_sum id (\<lambda>m. \<lparr> model = m, success = True \<rparr>)
          (run_steps (Suc (Suc 0))
             (newton_update quadratic_hessian quadratic_gradient cramer_solve) [0, 0])"
    unfolding g by blast
  then show ?thesis using quadratic_reporting by (simp add: quadratic_step)
qed

text \<open>
  Claim C8. For \<open>k \<ge> 0\<close>, a run with \<open>niter = k + 1\<close> yields what a run with \<open>niter = k\<close>
  followed by one more update step yields: the same outcome when reporting cannot raise,
  and in any case, when the longer run returns, its model is one update step after
  the model of \<open>k\<close> update steps.
\<close>

theorem one_more_iteration:
  assumes "0 \<le> k"
  shows "(reporting_cannot_raise s \<longrightarrow>
            fst (GaussNewton_call solve (s\<lparr>gn_niter := k + 1\<rparr>)) =
              (case fst (GaussNewton_call solve (s\<lparr>gn_niter := k\<rparr>)) of
                 Inl e \<Rightarrow> Inl e
               | Inr r \<Rightarrow>
                   map_sum id (\<lambda>m. \<lparr> model = m, success = True \<rparr>)
                     (newton_update (gn_hessian s) (gn_gradient s) solve (model r))))
       \<and> (\<forall>r'. fst (GaussNewton_call solve (s\<lparr>gn_niter := k + 1\<rparr>)) = Inr r' \<longrightarrow>
            (\<exists>m. run_steps (nat k) (newton_update (gn_hessian s) (gn_gradient s) solve)
                   (gn_model_0 s) = Inr m
                \<and> newton_update (gn_hessian s) (gn_gradient s) solve m = Inr (model r')))"
proof (intro conjI impI allI)
  let ?step = "newton_update (gn_hessian s) (gn_gradient s) solve"
  have n: "nat (k + 1) = Suc (nat k)" using assms by simp
  {
    assume a: "reporting_cannot_raise s"
    have a1: "reporting_cannot_raise (s\<lparr>gn_niter := k + 1\<rparr>)"
      and a0: "reporting_cannot_raise (s\<lparr>gn_niter := k\<rparr>)"
      using a by (simp_all add: reporting_cannot_raise_def)
    show "fst (GaussNewton_call solve (s\<lparr>gn_niter := k + 1\<rparr>)) =
              (case fst (GaussNewton_call solve (s\<lparr>gn_niter := k\<rparr>)) of
                 Inl e \<Rightarrow> Inl e
               | Inr r \<Rightarrow>
                   map_sum id (\<lambda>m. \<lparr> model = m, success = True \<rparr>) (?step (model r)))"
      unfolding call_run_steps[OF a1] call_run_steps[OF a0]
      by (simp add: n split: sum.splits)
  }
  fix r'
  assume "fst (GaussNewton_call solve (s\<lparr>gn_niter := k + 1\<rparr>)) = Inr r'"
  then obtain ev where "GaussNewton_call solve (s\<lparr>gn_niter := k + 1\<rparr>) = (Inr r', ev)"
    by (metis prod.collapse)
  from call_Inr(2)[OF this]
  have "run_steps (Suc (nat k)) ?step (gn_model_0 s) = Inr (model r')"
    by (simp add: n)
  then show "\<exists>m. run_steps (nat k) ?step (gn_model_0 s) = Inr m \<and> ?step m = Inr (model r')"
    by (auto split: sum.splits)
qed

text \<open>
  On the quadratic example with \<open>k = 1\<close>: one iteration gives \<open>[1, -2]\<close>, one more update
  step from there gives \<open>[1, -2]\<close>, and so does the run with two iterations.
\<close>

theorem one_more_iteration_witness:
  "(0::int) \<le> 1 \<and> reporting_cannot_raise quadratic_solver
   \<and> fst (GaussNewton_call cramer_solve (quadratic_solver\<lparr>gn_niter := 1\<rparr>)) =
       Inr \<lparr> model = [1, - 2], success = True \<rparr>
   \<and> newton_update (gn_hessian quadratic_solver) (gn_gradient quadratic_solver) cramer_solve
       [1, - 2] = Inr [1, - 2]
   \<and> fst (GaussNewton_call cramer_solve (quadratic_solver\<lparr>gn_niter := 1 + 1\<rparr>)) =
       Inr \<lparr> model = [1, - 2], success = True \<rparr>"
proof -
  have k: "(0::int) \<le> 1" by simp
  have c1: "fst (GaussNewton_call cramer_solve (quadratic_solver\<lparr>gn_niter := 1\<rparr>)) =
       Inr \<lparr> model = [1, - 2], success = True \<rparr>"
    by (rule quadratic_call) simp
  have st: "newton_update (gn_hessian quadratic_solver) (gn_gradient quadratic_solver)
       cramer_solve [1, - 2] = Inr [1, - 2]"
    by (simp add: quadratic_solver_fields quadratic_step)
  from one_more_iteration[OF k, of quadratic_solver cramer_solve] quadratic_reporting
  have "fst (GaussNewton_call cramer_solve (quadratic_solver\<lparr>gn_niter := 1 + 1\<rparr>)) =
      (case fst (GaussNewton_call cramer_solve (quadratic_solver\<lparr>gn_niter := 1\<rparr>)) of
         Inl e \<Rightarrow> Inl e
       | Inr r \<Rightarrow>
           map_sum id (\<lambda>m. \<lparr> model = m, success = True \<rparr>)
             (newton_update (gn_hessian quadratic_solver) (gn_gradient quadratic_solver)
                cramer_solve (model r)))"
    by blast
  then have "fst (GaussNewton_call cramer_solve (quadratic_solver\<lparr>gn_niter := 1 + 1\<rparr>)) =
       Inr \<lparr> model = [1, - 2], success = True \<rparr>"
    unfolding c1 by (simp add: st)
  with k c1 st quadratic_reporting show ?thesis by blast
qed

text \<open>
  Claim C9. A run with an iteration count of \<open>0\<close> returns the initial model with the success
  flag \<open>True\<close> and has no event: no gradient or Hessian evaluation, no call of the linear
  solver, nothing printed. Continuing a run that returned for \<open>0\<close> more iterations from
  its model returns the same result.
\<close>

theorem zero_iterations_return_initial_model:
  "GaussNewton_call solve (s\<lparr>gn_niter := 0\<rparr>) =
     (Inr \<lparr> model = gn_model_0 s, success = True \<rparr>, [])
   \<and> (\<forall>r ev. GaussNewton_call solve s = (Inr r, ev) \<longrightarrow>
         GaussNewton_call solve (s\<lparr>gn_model_0 := model r, gn_niter := 0\<rparr>) = (Inr r, []))"
proof (intro conjI allI impI)
  show "GaussNewton_call solve (s\<lparr>gn_niter := 0\<rparr>) =
     (Inr \<lparr> model = gn_model_0 s, success = True \<rparr>, [])"
    by (simp add: GaussNewton_call_def py_range_def)
next
  fix r ev
  assume "GaussNewton_call solve s = (Inr r, ev)"
  from call_Inr(1)[OF this] have "r = \<lparr> model = model r, success = True \<rparr>" by simp
  then show "GaussNewton_call solve (s\<lparr>gn_model_0 := model r, gn_niter := 0\<rparr>) = (Inr r, [])"
    by (simp add: GaussNewton_call_def py_range_def)
qed

text \<open>
  On the quadratic example the run with no iteration returns \<open>[0, 0]\<close>.
\<close>

theorem zero_iterations_return_initial_model_witness:
  "GaussNewton_call cramer_solve (quadratic_solver\<lparr>gn_niter := 0\<rparr>) =
     (Inr \<lparr> model = [0, 0], success = True \<rparr>, [])"
  using zero_iterations_return_initial_model[of cramer_solve quadratic_solver]
  by (simp add: quadratic_solver_fields)

text \<open>
  Claim C10. Two solver objects with the same iteration count, initial model, gradient and
  Hessian, whatever their verbose flags and reporting functions: when both runs return,
  they return the same model and success flag; when reporting cannot raise in either, the
  two outcomes are equal.
\<close>

theorem verbose_does_not_change_result:
  assumes "gn_niter s' = gn_niter s" and "gn_model_0 s' = gn_model_0 s"
    and "gn_gradient s' = gn_gradient s" and "gn_hessian s' = gn_hessian s"
  shows "(\<forall>r r'. fst (GaussNewton_call solve s) = Inr r \<and>
                  fst (GaussNewton_call solve s') = Inr r' \<longrightarrow> r = r')
       \<and> (reporting_cannot_raise s \<and> reporting_cannot_raise s' \<longrightarrow>
            fst (GaussNewton_call solve s) = fst (GaussNewton_call solve s'))"
proof (intro conjI allI impI)
  fix r r'
  assume a: "fst (GaussNewton_call solve s) = Inr r \<and> fst (GaussNewton_call solve s') = Inr r'"
  obtain ev ev' where c: "GaussNewton_call solve s = (Inr r, ev)"
    and c': "GaussNewton_call solve s' = (Inr r', ev')"
    using a by (metis prod.collapse)
  have "model r = model r'"
    using call_Inr(2)[OF c] call_Inr(2)[OF c'] assms by simp
  moreover have "success r = success r'"
    using call_Inr(1)[OF c] call_Inr(1)[OF c'] by simp
  ultimately show "r = r'" by simp
next
  assume "reporting_cannot_raise s \<and> reporting_cannot_raise s'"
  then show "fst (GaussNewton_call solve s) = fst (GaussNewton_call solve s')"
    using call_run_steps[of s solve] call_run_steps[of s' solve] assms by simp
qed

text \<open>
  The quadratic example with reporting on and its misfit function defined, and without
  the misfit function and with reporting off: both runs return \<open>[1, -2]\<close>.
\<close>

theorem verbose_does_not_change_result_witness:
  "reporting_cannot_raise quadratic_solver \<and> reporting_cannot_raise quiet_quadratic_solver
   \<and> gn_verbose quadratic_solver \<and> gn_misfit quadratic_solver = Some sum_of_squares
   \<and> \<not> gn_verbose quiet_quadratic_solver \<and> gn_misfit quiet_quadratic_solver = None
   \<and> fst (GaussNewton_call cramer_solve quadratic_solver) =
       fst (GaussNewton_call cramer_solve quiet_quadratic_solver)"
proof -
  have q: "reporting_cannot_raise quiet_quadratic_solver"
    by (simp add: reporting_cannot_raise_def quiet_quadratic_solver_fields)
  have e: "fst (GaussNewton_call cramer_solve quadratic_solver) =
       fst (GaussNewton_call cramer_solve quiet_quadratic_solver)"
    using verbose_does_not_change_result[of quiet_quadratic_solver quadratic_solver
        cramer_solve] quadratic_reporting q
    by (simp add: quiet_quadratic_solver_fields quadratic_solver_fields)
  have f: "gn_verbose quadratic_solver" "gn_misfit quadratic_solver = Some sum_of_squares"
    "\<not> gn_verbose quiet_quadratic_solver" "gn_misfit quiet_quadratic_solver = None"
    by (simp_all add: quiet_quadratic_solver_fields quadratic_solver_fields)
  note facts = quadratic_reporting q f e
  show ?thesis by (intro conjI) (rule facts)+
qed






lemma np_add_length:
  "np_add xs ys = Inr zs \<Longrightarrow> length xs = n \<Longrightarrow> length ys = n \<Longrightarrow> length zs = n"
  by (auto simp: np_add_def np_broadcast1_def)

lemma newton_update_length:
  assumes "\<forall>m g. length m = M \<and> grad m = Inr g \<longrightarrow> length g = M"
    and "\<forall>m H. length m = M \<and> hess m = Inr H \<longrightarrow> is_matrix M M H"
    and "solution_has_length M solve"
    and "length m = M"
    and "newton_update hess grad solve m = Inr m'"
  shows "length m' = M"
proof -
  from assms(5) obtain H g delta where
    h: "hess m = Inr H" and g: "grad m = Inr g"
    and d: "solve H (map uminus g) = Inr delta" and a: "np_add m delta = Inr m'"
    by (auto simp: newton_update_def split: sum.splits)
  have "is_matrix M M H" using assms(2,4) h by blast
  moreover have "length (map uminus g) = M" using assms(1,4) g by simp
  ultimately have "length delta = M"
    using assms(3) d unfolding solution_has_length_def by blast
  with a assms(4) show ?thesis by (rule_tac np_add_length)
qed

lemma run_steps_length:
  assumes "\<forall>m g. length m = M \<and> grad m = Inr g \<longrightarrow> length g = M"
    and "\<forall>m H. length m = M \<and> hess m = Inr H \<longrightarrow> is_matrix M M H"
    and "solution_has_length M solve"
    and "length m = M"
  shows "run_steps n (newton_update hess grad solve) m = Inr m' \<Longrightarrow> length m' = M"
proof (induction n arbitrary: m')
  case 0
  then show ?case using assms(4) by simp
next
  case (Suc n)
  from Suc.prems obtain m1 where
    r: "run_steps n (newton_update hess grad solve) m = Inr m1"
    and u: "newton_update hess grad solve m1 = Inr m'"
    by (auto split: sum.splits)
  from Suc.IH[OF r] have "length m1 = M" .
  then show ?case using newton_update_length[OF assms(1-3) _ u] by simp
qed

text \<open>
  Claim C7. Let the initial model have length \<open>M\<close>, let the gradient evaluator return
  vectors of length \<open>M\<close> and the Hessian evaluator \<open>M \<times> M\<close> matrices on models of length
  \<open>M\<close>, and let the linear solver return solutions of length \<open>M\<close> on such systems. Then
  the model after any number \<open>k\<close> of iterations has length \<open>M\<close>.
\<close>

theorem model_length_is_invariant:
  assumes "length (gn_model_0 s) = M"
    and "\<forall>m g. length m = M \<and> gn_gradient s m = Inr g \<longrightarrow> length g = M"
    and "\<forall>m H. length m = M \<and> gn_hessian s m = Inr H \<longrightarrow> is_matrix M M H"
    and "solution_has_length M solve"
    and "fst (GaussNewton_call solve (s\<lparr>gn_niter := k\<rparr>)) = Inr r"
  shows "length (model r) = M"
proof -
  obtain ev where "GaussNewton_call solve (s\<lparr>gn_niter := k\<rparr>) = (Inr r, ev)"
    using assms(5) by (metis prod.collapse)
  from call_Inr(2)[OF this]
  have "run_steps (nat k) (newton_update (gn_hessian s) (gn_gradient s) solve) (gn_model_0 s)
          = Inr (model r)"
    by simp
  then show ?thesis
    by (rule run_steps_length[OF assms(2) assms(3) assms(4) assms(1)])
qed

text \<open>
  On the quadratic example with \<open>M = 2\<close> and two iterations.
\<close>

theorem model_length_is_invariant_witness:
  "length (gn_model_0 quadratic_solver) = 2
   \<and> solution_has_length 2 cramer_solve
   \<and> fst (GaussNewton_call cramer_solve (quadratic_solver\<lparr>gn_niter := 2\<rparr>)) =
       Inr \<lparr> model = [1, - 2], success = True \<rparr>
   \<and> length (model \<lparr> model = [1, - 2], success = True \<rparr>) = 2"
proof -
  have l: "length (gn_model_0 quadratic_solver) = 2"
    by (simp add: quadratic_solver_fields)
  have g: "\<forall>m g. length m = 2 \<and> gn_gradient quadratic_solver m = Inr g \<longrightarrow> length g = 2"
    by (auto simp: quadratic_solver_fields quadratic_gradient_def)
  have h: "\<forall>m H. length m = 2 \<and> gn_hessian quadratic_solver m = Inr H \<longrightarrow> is_matrix 2 2 H"
    by (auto simp: quadratic_solver_fields quadratic_hessian_def is_matrix_def)
  have c: "fst (GaussNewton_call cramer_solve (quadratic_solver\<lparr>gn_niter := 2\<rparr>)) =
       Inr \<lparr> model = [1, - 2], success = True \<rparr>"
    by (rule quadratic_call) simp
  from model_length_is_invariant[OF l g h cramer_solution_has_length c]
  show ?thesis using l c cramer_solution_has_length by blast
qed





section \<open>Properties of the gradient, the Jacobian and the Hessian\<close>

subsection \<open>The examples\<close>

lemmas array_defs = np_broadcast2_def np_broadcast1_def bdim_def pick_def ncols_def
  as_column_def as_row_def np_T_def smul_vec_def smul_mat_def np_eye_def dot_def mat_mul_def
  mat_vec_def vec_mat_def np_matmul_def np_matvec_def np_vecmat_def add_dense_sparse_def
  np_add_def np_sub_def rescale_def is_matrix_def np_exp_log_def

lemma ert_get_jac_residual_alt:
  "ert_get_jac_residual m d fop =
     (case ert_get_response m fop of
        Inl e \<Rightarrow> Inl e
      | Inr resp \<Rightarrow>
          (case np_sub d resp of
             Inl e \<Rightarrow> Inl e
           | Inr res \<Rightarrow>
               (case ert_get_jacobian m fop of
                  Inl e \<Rightarrow> Inl e
                | Inr jac \<Rightarrow> Inr (jac, res))))"
  by (simp add: ert_get_jac_residual_def ert_get_jacobian_def split: sum.splits)

lemma example_ert_response: "ert_get_response [3] constant_fit_operator = Inr [3, 3]"
  by (simp add: ert_get_response_def constant_fit_operator_def)

lemma example_ert_jacobian: "ert_get_jacobian [3] constant_fit_operator = Inr [[1], [1]]"
  by (simp add: ert_get_jacobian_def ert_get_response_def constant_fit_operator_def array_defs)

lemma example_dcip_jacobian:
  "dcip_get_jacobian (\<lambda>v. v) [0] constant_fit_operator = Inr [[1], [1]]"
  by (simp add: dcip_get_jacobian_def dcip_get_response_def constant_fit_operator_def array_defs)

lemma example_scipy_gradient:
  "scipy_minimize_get_gradient [3] [2, 4] constant_fit_operator [[1]] 20 = Inr [60]"
  by (simp add: scipy_minimize_get_gradient_def ert_get_jac_residual_alt example_ert_response
      example_ert_jacobian array_defs)

lemma example_dcip_hessian:
  "dcip_get_hessian (\<lambda>v. v) [0] [2, 4] constant_fit_operator [[1]] 20 None = Inr [[22]]"
  by (simp add: dcip_get_hessian_def example_dcip_jacobian array_defs)


subsection \<open>Scaling\<close>

lemma dot_smul_left: "dot (smul_vec c xs) ys = c * dot xs ys"
proof (induction xs arbitrary: ys)
  case Nil
  then show ?case by (simp add: dot_def smul_vec_def)
next
  case (Cons x xs)
  then show ?case
    by (cases ys) (simp_all add: dot_def smul_vec_def algebra_simps)
qed

lemma smul_vec_uminus: "smul_vec (- 2) xs = smul_vec 2 (map uminus xs)"
  by (simp add: smul_vec_def)

lemma smul_vec_smul_vec: "smul_vec a (smul_vec b xs) = smul_vec (a * b) xs"
  by (simp add: smul_vec_def)

lemma smul_mat_smul_mat: "smul_mat a (smul_mat b A) = smul_mat (a * b) A"
  by (simp add: smul_mat_def smul_vec_smul_vec)

lemma length_smul_vec [simp]: "length (smul_vec c xs) = length xs"
  by (simp add: smul_vec_def)

lemma length_smul_mat [simp]: "length (smul_mat c A) = length A"
  by (simp add: smul_mat_def)

lemma ncols_smul_mat [simp]: "ncols (smul_mat c A) = ncols A"
  by (cases A) (simp_all add: ncols_def smul_mat_def)

lemma smul_vec_map: "smul_vec c (map f xs) = map (\<lambda>x. c * f x) xs"
  by (simp add: smul_vec_def)

lemma np_vecmat_smul:
  "np_vecmat (smul_vec c v) A = map_sum id (smul_vec c) (np_vecmat v A)"
  by (simp add: np_vecmat_def vec_mat_def dot_smul_left smul_vec_map)

lemma np_matmul_smul:
  "np_matmul (smul_mat c A) B = map_sum id (smul_mat c) (np_matmul A B)"
proof -
  have "mat_mul (smul_mat c A) B = smul_mat c (mat_mul A B)"
    unfolding mat_mul_def
    by (simp add: smul_mat_def dot_smul_left smul_vec_map comp_def)
  then show ?thesis by (simp add: np_matmul_def)
qed

lemma np_matvec_smul:
  "np_matvec (smul_mat c A) v = map_sum id (smul_vec c) (np_matvec A v)"
proof -
  have "mat_vec (smul_mat c A) v = smul_vec c (mat_vec A v)"
    unfolding mat_vec_def
    by (simp add: smul_mat_def dot_smul_left smul_vec_map comp_def)
  then show ?thesis by (simp add: np_matvec_def)
qed

lemma map2_add_smul:
  "map2 (+) (smul_vec c xs) (smul_vec c ys) = smul_vec c (map2 (+) xs ys)"
proof (induction xs arbitrary: ys)
  case Nil
  then show ?case by (simp add: smul_vec_def)
next
  case (Cons x xs)
  then show ?case by (cases ys) (simp_all add: smul_vec_def algebra_simps)
qed

lemma np_add_smul:
  "np_add (smul_vec c xs) (smul_vec c ys) = map_sum id (smul_vec c) (np_add xs ys)"
proof -
  have h: "length zs = 1 \<Longrightarrow> hd (smul_vec c zs) = c * hd zs" for zs
    by (cases zs) (simp_all add: smul_vec_def)
  show ?thesis
    unfolding np_add_def np_broadcast1_def
    by (simp add: map2_add_smul h) (simp add: smul_vec_def algebra_simps comp_def)
qed

text \<open>
  Claim C4. On the same model, data, forward operator, regularisation matrix and weight,
  \<open>get_gradient\<close> of the Gauss-Newton script returns twice what \<open>get_gradient\<close> of
  the SciPy script returns, entry by entry; when one raises, the other raises the same
  exception. Both take the Jacobian and the residual from \<open>get_jac_residual\<close>.
\<close>

theorem gauss_newton_gradient_is_twice_scipy_gradient:
  "gauss_newton_get_gradient model_vec log_data fop Wm lamda =
     map_sum id (smul_vec 2) (scipy_minimize_get_gradient model_vec log_data fop Wm lamda)"
proof (cases "ert_get_jac_residual model_vec log_data fop")
  case (Inl e)
  then show ?thesis
    by (simp add: gauss_newton_get_gradient_def scipy_minimize_get_gradient_def)
next
  case (Inr p)
  obtain jac r where p: "p = (jac, r)" by (cases p)
  have a: "np_vecmat (smul_vec (- 2) r) jac =
      map_sum id (smul_vec 2) (np_vecmat (map uminus r) jac)"
    unfolding smul_vec_uminus by (rule np_vecmat_smul)
  have b: "np_matmul (smul_mat (2 * lamda) (np_T Wm)) Wm =
      map_sum id (smul_mat 2) (np_matmul (smul_mat lamda (np_T Wm)) Wm)"
    unfolding smul_mat_smul_mat[symmetric] by (rule np_matmul_smul)
  note defs = gauss_newton_get_gradient_def scipy_minimize_get_gradient_def
  show ?thesis
  proof (cases "np_vecmat (map uminus r) jac")
    case (Inl e)
    then show ?thesis by (simp add: defs Inr p a)
  next
    case g: (Inr dg)
    show ?thesis
    proof (cases "np_matmul (smul_mat lamda (np_T Wm)) Wm")
      case (Inl e)
      then show ?thesis by (simp add: defs Inr p a b g)
    next
      case w: (Inr WtW)
      show ?thesis
      proof (cases "np_matvec WtW model_vec")
        case (Inl e)
        then show ?thesis by (simp add: defs Inr p a b g w np_matvec_smul)
      next
        case v: (Inr rg)
        then show ?thesis by (simp add: defs Inr p a b g w np_matvec_smul np_add_smul)
      qed
    qed
  qed
qed

text \<open>
  On the example operator at the model \<open>[3]\<close> with data \<open>[2, 4]\<close>, \<open>Wm = [[1]]\<close> and
  \<open>lamda = 20\<close>: the two gradients are \<open>[60]\<close> and \<open>[120]\<close>.
\<close>

theorem gauss_newton_gradient_is_twice_scipy_gradient_witness:
  "scipy_minimize_get_gradient [3] [2, 4] constant_fit_operator [[1]] 20 = Inr [60]
   \<and> gauss_newton_get_gradient [3] [2, 4] constant_fit_operator [[1]] 20 = Inr [120]"
  using gauss_newton_gradient_is_twice_scipy_gradient[of "[3]" "[2, 4]" constant_fit_operator
      "[[1]]" 20]
  by (simp add: example_scipy_gradient smul_vec_def)

subsection \<open>Shapes and entries\<close>

lemma is_matrix_length: "is_matrix n m A \<Longrightarrow> length A = n"
  by (simp add: is_matrix_def)

lemma is_matrix_row: "is_matrix n m A \<Longrightarrow> i < n \<Longrightarrow> length (A ! i) = m"
  by (simp add: is_matrix_def list_all_length)

lemma is_matrix_ncols: "is_matrix n m A \<Longrightarrow> 0 < n \<Longrightarrow> ncols A = m"
  by (cases A) (auto simp: is_matrix_def ncols_def)

lemma is_matrixI:
  "length A = n \<Longrightarrow> (\<And>i. i < n \<Longrightarrow> length (A ! i) = m) \<Longrightarrow> is_matrix n m A"
  by (simp add: is_matrix_def list_all_length)

lemma pick_less: "i < n \<Longrightarrow> pick n i = i"
  by (auto simp: pick_def)

lemma pick_one: "pick 1 i = 0" "pick (Suc 0) i = 0"
  by (simp_all add: pick_def)

lemma bdim_same: "bdim n n = Some n"
  by (simp add: bdim_def)

lemma bdim_one: "bdim n 1 = Some n" "bdim n (Suc 0) = Some n"
  by (simp_all add: bdim_def)

lemma ncols_map_upt: "0 < n \<Longrightarrow> ncols (map f [0..<n]) = length (f 0)"
  by (cases n) (simp_all add: ncols_def upt_rec)

lemma np_exp_log_nonneg:
  assumes "list_all (\<lambda>x. 0 \<le> x) v"
  shows "np_exp_log v = Inr v"
proof -
  have "map (\<lambda>x. if 0 < x then exp (ln x) else 0) v = v"
    using assms by (induction v) auto
  then show ?thesis using assms by (simp add: np_exp_log_def)
qed

lemma np_exp_log_exp: "np_exp_log (map exp mu) = Inr (map exp mu)"
  by (rule np_exp_log_nonneg) (simp add: list_all_iff)

lemma rescale_entries:
  assumes J: "is_matrix N M J" and r: "length response = N" and w: "length w = M"
    and N: "0 < N"
  shows "\<exists>jac. rescale J response (Inr w) = Inr jac \<and> is_matrix N M jac
           \<and> (\<forall>i<N. \<forall>j<M. jac ! i ! j = J ! i ! j / exp (response ! i) * w ! j)"
proof -
  let ?col = "as_column (map exp response)"
  let ?Q = "map (\<lambda>i. map (\<lambda>j. J ! pick N i ! pick M j / ?col ! pick N i ! pick 1 j) [0..<M])
              [0..<N]"
  have lJ: "length J = N" and cJ: "ncols J = M"
    using J N by (simp_all add: is_matrix_length is_matrix_ncols)
  have lc: "length ?col = N" and cc: "ncols ?col = 1"
    using r N by (cases response; simp add: as_column_def ncols_def)+
  have q: "np_broadcast2 (/) J ?col = Inr ?Q"
    unfolding np_broadcast2_def lJ cJ lc cc by (simp add: bdim_same bdim_one)
  have lQ: "length ?Q = N" by simp
  have cQ: "ncols ?Q = M" using N by (simp add: ncols_map_upt)
  let ?row = "as_row w"
  let ?R = "map (\<lambda>i. map (\<lambda>j. ?Q ! pick N i ! pick M j * ?row ! pick 1 i ! pick M j) [0..<M])
              [0..<N]"
  have lr: "length ?row = 1" and cr: "ncols ?row = M"
    using w by (simp_all add: as_row_def ncols_def)
  have "np_broadcast2 (*) ?Q ?row = Inr ?R"
    unfolding np_broadcast2_def lQ cQ lr cr by (simp add: bdim_same bdim_one)
  then have res: "rescale J response (Inr w) = Inr ?R"
    by (simp add: rescale_def q)
  have shape: "is_matrix N M ?R" by (rule is_matrixI) simp_all
  have entries: "?R ! i ! j = J ! i ! j / exp (response ! i) * w ! j"
    if "i < N" "j < M" for i j
    using that r by (simp add: pick_less pick_one as_column_def as_row_def)
  from res shape entries show ?thesis by blast
qed

text \<open>
  Claim C6. Let \<open>mu\<close> be a model in log space of length \<open>M\<close>, let the forward operator
  return at \<open>exp(mu)\<close> a response \<open>r\<close> of length \<open>N > 0\<close> and an \<open>N \<times> M\<close> Jacobian \<open>J\<close>.
  Then \<open>get_jacobian\<close> of \<open>pygimli_dcip_lib.py\<close> at \<open>mu\<close> returns the \<open>N \<times> M\<close> array with
  entry \<open>(i, j)\<close> equal to \<open>J[i][j] \<cdot> exp(mu[j]) / exp(response[i])\<close>, where \<open>response\<close> is
  the logarithm of \<open>r\<close>; \<open>get_jacobian\<close> of the two resistivity scripts, which takes the
  model itself, returns the same array at \<open>exp(mu)\<close>. \<open>squeezeComplex\<close> leaves a real
  array as it is.
\<close>

theorem jacobian_is_rescaled_for_log_model:
  assumes sq: "squeezeComplex mu = mu"
    and resp: "fop_response fop (map exp mu) = Inr r" and r: "length r = N" and N: "0 < N"
    and jac: "fop_jacobian fop (map exp mu) = Inr J" and J: "is_matrix N M J"
    and mu: "length mu = M"
  shows "\<exists>response jac.
           dcip_get_response squeezeComplex mu fop = Inr response
         \<and> response = map ln r
         \<and> dcip_get_jacobian squeezeComplex mu fop = Inr jac
         \<and> ert_get_jacobian (map exp mu) fop = Inr jac
         \<and> is_matrix N M jac
         \<and> (\<forall>i<N. \<forall>j<M. jac ! i ! j = J ! i ! j * exp (mu ! j) / exp (response ! i))"
proof -
  have d: "dcip_get_response squeezeComplex mu fop = Inr (map ln r)"
    by (simp add: dcip_get_response_def sq resp)
  have e: "ert_get_response (map exp mu) fop = Inr (map ln r)"
    by (simp add: ert_get_response_def resp)
  from rescale_entries[OF J, of "map ln r" "map exp mu"] r mu N
  obtain jac where res: "rescale J (map ln r) (Inr (map exp mu)) = Inr jac"
    and shape: "is_matrix N M jac"
    and ent: "\<forall>i<N. \<forall>j<M. jac ! i ! j = J ! i ! j / exp (map ln r ! i) * map exp mu ! j"
    by auto
  have dj: "dcip_get_jacobian squeezeComplex mu fop = Inr jac"
    by (simp add: dcip_get_jacobian_def d jac res)
  have ej: "ert_get_jacobian (map exp mu) fop = Inr jac"
    by (simp add: ert_get_jacobian_def e jac np_exp_log_exp res)
  have "jac ! i ! j = J ! i ! j * exp (mu ! j) / exp (map ln r ! i)" if "i < N" "j < M" for i j
    using ent that mu by simp
  with d dj ej shape show ?thesis by blast
qed

text \<open>
  On the example operator at \<open>mu = [0]\<close>: the response is \<open>[e, e]\<close>, the supplied Jacobian
  \<open>[[e], [e]]\<close>, the rescaled one \<open>[[1], [1]]\<close>.
\<close>

theorem jacobian_is_rescaled_for_log_model_witness:
  "fop_response constant_fit_operator (map exp [0]) = Inr [exp 1, exp 1]
   \<and> fop_jacobian constant_fit_operator (map exp [0]) = Inr [[exp 1], [exp 1]]
   \<and> is_matrix 2 1 [[exp 1], [exp 1]]
   \<and> dcip_get_jacobian (\<lambda>v. v) [0] constant_fit_operator = Inr [[1], [1]]
   \<and> ert_get_jacobian (map exp [0]) constant_fit_operator = Inr [[1], [1]]
   \<and> ([[1], [1]] :: mat) ! 1 ! 0 =
       [[exp 1], [exp 1]] ! 1 ! 0 * exp ([0] ! 0) / exp (map ln [exp 1, exp 1] ! 1)"
proof -
  have sq: "(\<lambda>v::vec. v) [0] = [0]" by simp
  have resp: "fop_response constant_fit_operator (map exp [0]) = Inr [exp 1, exp 1]"
    by (simp add: constant_fit_operator_def)
  have jac: "fop_jacobian constant_fit_operator (map exp [0]) = Inr [[exp 1], [exp 1]]"
    by (simp add: constant_fit_operator_def)
  have J: "is_matrix 2 1 [[exp 1], [exp 1]]" by (simp add: is_matrix_def)
  from jacobian_is_rescaled_for_log_model[of "\<lambda>v. v" "[0]" constant_fit_operator
      "[exp 1, exp 1]" 2 "[[exp 1], [exp 1]]" 1, OF sq resp _ _ jac J]
  obtain response jac' where a: "response = map ln [exp 1, exp 1]"
    "dcip_get_jacobian (\<lambda>v. v) [0] constant_fit_operator = Inr jac'"
    "ert_get_jacobian (map exp [0]) constant_fit_operator = Inr jac'"
    "\<forall>i<2. \<forall>j<1. jac' ! i ! j =
        [[exp 1], [exp 1]] ! i ! j * exp ([0] ! j) / exp (response ! i)"
    by auto
  have j: "jac' = [[1], [1]]" using a(2) example_dcip_jacobian by simp
  have e: "jac' ! 1 ! 0 = [[exp 1], [exp 1]] ! 1 ! 0 * exp ([0] ! 0) / exp (response ! 1)"
    using a(4) by (simp del: nth_Cons_0 nth_Cons_Suc nth_Cons_numeral)
  note facts = resp jac J a(2,3)[unfolded j] e[unfolded j a(1)]
  show ?thesis by (intro conjI) (rule facts)+
qed

subsection \<open>Entries of products\<close>

lemma dot_sum:
  assumes "length xs = n" and "length ys = n"
  shows "dot xs ys = (\<Sum>k<n. xs ! k * ys ! k)"
proof -
  have "dot xs ys = (\<Sum>k = 0..<length (map2 (*) xs ys). map2 (*) xs ys ! k)"
    unfolding dot_def by (rule sum_list_sum_nth)
  also have "\<dots> = (\<Sum>k = 0..<n. xs ! k * ys ! k)"
    using assms by (intro sum.cong) auto
  finally show ?thesis by (simp add: atLeast0LessThan)
qed

lemma np_T_shape:
  assumes "is_matrix n m A" and "0 < n"
  shows "is_matrix m n (np_T A)"
  using assms by (intro is_matrixI) (simp_all add: np_T_def is_matrix_ncols is_matrix_length)

lemma np_T_nth:
  assumes "is_matrix n m A" and "0 < n" and "j < m" and "i < n"
  shows "np_T A ! j ! i = A ! i ! j"
  using assms by (simp add: np_T_def is_matrix_ncols is_matrix_length)

lemma np_T_row:
  assumes "is_matrix n m A" and "0 < n" and "j < m"
  shows "length (np_T A ! j) = n"
  using is_matrix_row[OF np_T_shape[OF assms(1,2)] assms(3)] .

lemma mat_mul_shape:
  assumes "is_matrix n k A" and "is_matrix k m B" and "0 < k"
  shows "is_matrix n m (mat_mul A B)"
  using assms
  by (intro is_matrixI)
     (simp_all add: mat_mul_def is_matrix_length np_T_def is_matrix_ncols)

lemma mat_mul_nth:
  assumes A: "is_matrix n k A" and B: "is_matrix k m B" and k: "0 < k"
    and i: "i < n" and j: "j < m"
  shows "mat_mul A B ! i ! j = (\<Sum>l<k. A ! i ! l * B ! l ! j)"
proof -
  have lT: "length (np_T B) = m" using np_T_shape[OF B k] by (simp add: is_matrix_length)
  have "mat_mul A B ! i ! j = dot (A ! i) (np_T B ! j)"
    using i j A lT by (simp add: mat_mul_def is_matrix_length)
  also have "\<dots> = (\<Sum>l<k. A ! i ! l * np_T B ! j ! l)"
    by (rule dot_sum) (simp_all add: is_matrix_row[OF A i] np_T_row[OF B k j])
  also have "\<dots> = (\<Sum>l<k. A ! i ! l * B ! l ! j)"
    by (intro sum.cong) (simp_all add: np_T_nth[OF B k j])
  finally show ?thesis .
qed

lemma np_matmul_conformant:
  assumes "is_matrix n k A" and "is_matrix k m B" and "0 < n"
  shows "np_matmul A B = Inr (mat_mul A B)"
  using assms by (simp add: np_matmul_def is_matrix_ncols is_matrix_length)


lemma length_mat_vec [simp]: "length (mat_vec A x) = length A"
  by (simp add: mat_vec_def)



lemma smul_mat_shape: "is_matrix n m A \<Longrightarrow> is_matrix n m (smul_mat c A)"
  by (intro is_matrixI) (simp_all add: is_matrix_length smul_mat_def is_matrix_row)

lemma smul_mat_nth:
  "is_matrix n m A \<Longrightarrow> i < n \<Longrightarrow> j < m \<Longrightarrow> smul_mat c A ! i ! j = c * A ! i ! j"
  by (simp add: smul_mat_def smul_vec_def is_matrix_length is_matrix_row)

lemma add_dense_sparse_entries:
  assumes A: "is_matrix n m A" and B: "is_matrix n m B" and n: "0 < n"
  shows "\<exists>S. add_dense_sparse A B = Inr S \<and> is_matrix n m S
           \<and> (\<forall>i<n. \<forall>j<m. S ! i ! j = A ! i ! j + B ! i ! j)"
proof -
  let ?S = "map (\<lambda>i. map (\<lambda>j. A ! pick n i ! pick m j + B ! i ! j) [0..<m]) [0..<n]"
  have "add_dense_sparse A B = Inr ?S"
    using A B n by (simp add: add_dense_sparse_def is_matrix_length is_matrix_ncols)
  moreover have "is_matrix n m ?S"
    by (intro is_matrixI) simp_all
  moreover have "?S ! i ! j = A ! i ! j + B ! i ! j" if "i < n" "j < m" for i j
    using that by (simp add: pick_less)
  ultimately show ?thesis by blast
qed

lemma np_eye_shape: "is_matrix n n (np_eye n)"
  by (intro is_matrixI) (simp_all add: np_eye_def)

lemma np_eye_nth: "i < n \<Longrightarrow> j < n \<Longrightarrow> np_eye n ! i ! j = (if i = j then 1 else 0)"
  by (simp add: np_eye_def)

lemma matrix_eqI:
  assumes "is_matrix n m A" and "is_matrix n m B"
    and "\<And>i j. i < n \<Longrightarrow> j < m \<Longrightarrow> A ! i ! j = B ! i ! j"
  shows "A = B"
proof (rule nth_equalityI)
  show "length A = length B" using assms by (simp add: is_matrix_length)
next
  fix i assume "i < length A"
  then have i: "i < n" using assms(1) by (simp add: is_matrix_length)
  show "A ! i = B ! i"
    by (rule nth_equalityI)
       (simp_all add: is_matrix_row[OF assms(1) i] is_matrix_row[OF assms(2) i] assms(3) i)
qed

lemma ert_jacobian_eq_dcip_jacobian:
  "squeezeComplex mu = mu \<Longrightarrow>
   ert_get_jacobian (map exp mu) fop = dcip_get_jacobian squeezeComplex mu fop"
proof -
  assume sq: "squeezeComplex mu = mu"
  have r: "ert_get_response (map exp mu) fop = dcip_get_response squeezeComplex mu fop"
    by (simp add: ert_get_response_def dcip_get_response_def sq)
  show ?thesis
    unfolding ert_get_jacobian_def dcip_get_jacobian_def r np_exp_log_exp ..
qed

lemma regularisation_term:
  assumes Wm: "is_matrix K M Wm" and K: "0 < K" and M: "0 < M"
  shows "np_matmul (smul_mat c (np_T Wm)) Wm = Inr (mat_mul (smul_mat c (np_T Wm)) Wm)"
    and "is_matrix M M (mat_mul (smul_mat c (np_T Wm)) Wm)"
    and "\<And>i j. i < M \<Longrightarrow> j < M \<Longrightarrow>
           mat_mul (smul_mat c (np_T Wm)) Wm ! i ! j = c * (\<Sum>k<K. Wm ! k ! i * Wm ! k ! j)"
proof -
  have T: "is_matrix M K (np_T Wm)" by (rule np_T_shape[OF Wm K])
  have S: "is_matrix M K (smul_mat c (np_T Wm))" by (rule smul_mat_shape[OF T])
  show "np_matmul (smul_mat c (np_T Wm)) Wm = Inr (mat_mul (smul_mat c (np_T Wm)) Wm)"
    by (rule np_matmul_conformant[OF S Wm M])
  show "is_matrix M M (mat_mul (smul_mat c (np_T Wm)) Wm)"
    by (rule mat_mul_shape[OF S Wm K])
  fix i j assume i: "i < M" and j: "j < M"
  have "mat_mul (smul_mat c (np_T Wm)) Wm ! i ! j =
        (\<Sum>k<K. smul_mat c (np_T Wm) ! i ! k * Wm ! k ! j)"
    by (rule mat_mul_nth[OF S Wm K i j])
  also have "\<dots> = (\<Sum>k<K. c * (Wm ! k ! i * Wm ! k ! j))"
    by (intro sum.cong)
       (simp_all add: smul_mat_nth[OF T i] np_T_nth[OF Wm K i] algebra_simps)
  also have "\<dots> = c * (\<Sum>k<K. Wm ! k ! i * Wm ! k ! j)"
    by (simp add: sum_distrib_left)
  finally show "mat_mul (smul_mat c (np_T Wm)) Wm ! i ! j =
      c * (\<Sum>k<K. Wm ! k ! i * Wm ! k ! j)" .
qed

lemma weighted_normal_matrix:
  assumes J: "is_matrix N M J" and C: "is_matrix N N C" and N: "0 < N" and M: "0 < M"
  shows "np_matmul (np_T J) C = Inr (mat_mul (np_T J) C)"
    and "np_matmul (mat_mul (np_T J) C) J = Inr (mat_mul (mat_mul (np_T J) C) J)"
    and "is_matrix M M (mat_mul (mat_mul (np_T J) C) J)"
    and "\<And>i j. i < M \<Longrightarrow> j < M \<Longrightarrow>
           mat_mul (mat_mul (np_T J) C) J ! i ! j =
             (\<Sum>k<N. \<Sum>l<N. J ! k ! i * C ! k ! l * J ! l ! j)"
proof -
  have T: "is_matrix M N (np_T J)" by (rule np_T_shape[OF J N])
  have P: "is_matrix M N (mat_mul (np_T J) C)" by (rule mat_mul_shape[OF T C N])
  show "np_matmul (np_T J) C = Inr (mat_mul (np_T J) C)"
    by (rule np_matmul_conformant[OF T C M])
  show "np_matmul (mat_mul (np_T J) C) J = Inr (mat_mul (mat_mul (np_T J) C) J)"
    by (rule np_matmul_conformant[OF P J M])
  show "is_matrix M M (mat_mul (mat_mul (np_T J) C) J)"
    by (rule mat_mul_shape[OF P J N])
  fix i j assume i: "i < M" and j: "j < M"
  have "mat_mul (mat_mul (np_T J) C) J ! i ! j =
        (\<Sum>l<N. mat_mul (np_T J) C ! i ! l * J ! l ! j)"
    by (rule mat_mul_nth[OF P J N i j])
  also have "\<dots> = (\<Sum>l<N. (\<Sum>k<N. J ! k ! i * C ! k ! l) * J ! l ! j)"
  proof (intro sum.cong refl)
    fix l assume "l \<in> {..<N}"
    then have l: "l < N" by simp
    have "mat_mul (np_T J) C ! i ! l = (\<Sum>k<N. np_T J ! i ! k * C ! k ! l)"
      by (rule mat_mul_nth[OF T C N i l])
    also have "\<dots> = (\<Sum>k<N. J ! k ! i * C ! k ! l)"
      by (intro sum.cong) (simp_all add: np_T_nth[OF J N i])
    finally show "mat_mul (np_T J) C ! i ! l * J ! l ! j =
        (\<Sum>k<N. J ! k ! i * C ! k ! l) * J ! l ! j" by simp
  qed
  also have "\<dots> = (\<Sum>l<N. \<Sum>k<N. J ! k ! i * C ! k ! l * J ! l ! j)"
    by (simp add: sum_distrib_right)
  also have "\<dots> = (\<Sum>k<N. \<Sum>l<N. J ! k ! i * C ! k ! l * J ! l ! j)"
    by (rule sum.swap)
  finally show "mat_mul (mat_mul (np_T J) C) J ! i ! j =
      (\<Sum>k<N. \<Sum>l<N. J ! k ! i * C ! k ! l * J ! l ! j)" .
qed

lemma normal_matrix:
  assumes J: "is_matrix N M J" and N: "0 < N" and M: "0 < M"
  shows "np_matmul (np_T J) J = Inr (mat_mul (np_T J) J)"
    and "is_matrix M M (mat_mul (np_T J) J)"
    and "\<And>i j. i < M \<Longrightarrow> j < M \<Longrightarrow>
           mat_mul (np_T J) J ! i ! j = (\<Sum>k<N. J ! k ! i * J ! k ! j)"
proof -
  have T: "is_matrix M N (np_T J)" by (rule np_T_shape[OF J N])
  show "np_matmul (np_T J) J = Inr (mat_mul (np_T J) J)"
    by (rule np_matmul_conformant[OF T J M])
  show "is_matrix M M (mat_mul (np_T J) J)"
    by (rule mat_mul_shape[OF T J N])
  fix i j assume i: "i < M" and j: "j < M"
  have "mat_mul (np_T J) J ! i ! j = (\<Sum>k<N. np_T J ! i ! k * J ! k ! j)"
    by (rule mat_mul_nth[OF T J N i j])
  also have "\<dots> = (\<Sum>k<N. J ! k ! i * J ! k ! j)"
    by (intro sum.cong) (simp_all add: np_T_nth[OF J N i])
  finally show "mat_mul (np_T J) J ! i ! j = (\<Sum>k<N. J ! k ! i * J ! k ! j)" .
qed

lemma identity_weighting:
  "(\<Sum>k<N. \<Sum>l<N. (a k :: real) * np_eye N ! k ! l * b l) = (\<Sum>k<N. a k * b k)"
proof (intro sum.cong refl)
  fix k assume "k \<in> {..<N}"
  then have k: "k < N" by simp
  have "(\<Sum>l<N. a k * np_eye N ! k ! l * b l) = (\<Sum>l<N. if k = l then a k * b l else 0)"
    by (intro sum.cong) (simp_all add: np_eye_nth k)
  also have "\<dots> = a k * b k" using k by simp
  finally show "(\<Sum>l<N. a k * np_eye N ! k ! l * b l) = a k * b k" .
qed

lemma hessian_sum:
  assumes A: "np_matmul X Y = Inr P" "is_matrix M M P"
    and W: "is_matrix K M Wm" and K: "0 < K" and M: "0 < M"
  shows "\<exists>H. (case np_matmul (smul_mat lamda (np_T Wm)) Wm of
                Inl e \<Rightarrow> Inl e
              | Inr WtW \<Rightarrow> add_dense_sparse P WtW) = Inr H
            \<and> is_matrix M M H
            \<and> (\<forall>i<M. \<forall>j<M. H ! i ! j =
                  P ! i ! j + lamda * (\<Sum>k<K. Wm ! k ! i * Wm ! k ! j))"
proof -
  note R = regularisation_term[OF W K M, where c = lamda]
  from add_dense_sparse_entries[OF A(2) R(2) M]
  obtain H where H: "add_dense_sparse P (mat_mul (smul_mat lamda (np_T Wm)) Wm) = Inr H"
    "is_matrix M M H"
    "\<forall>i<M. \<forall>j<M. H ! i ! j = P ! i ! j + mat_mul (smul_mat lamda (np_T Wm)) Wm ! i ! j"
    by blast
  have "H ! i ! j = P ! i ! j + lamda * (\<Sum>k<K. Wm ! k ! i * Wm ! k ! j)"
    if "i < M" "j < M" for i j
    using H(3) R(3) that by simp
  with H(1,2) show ?thesis by (simp add: R(1))
qed

text \<open>
  Claim C5. Let \<open>get_jacobian\<close> return the \<open>N \<times> M\<close> array \<open>jac\<close> at the model, let \<open>Wm\<close> be
  \<open>K \<times> M\<close>, the data of length \<open>N\<close>, the weighting absent or \<open>N \<times> N\<close>, and \<open>N\<close>, \<open>M\<close>, \<open>K\<close>
  positive. Then \<open>get_hessian\<close> of \<open>pygimli_dcip_lib.py\<close> returns the \<open>M \<times> M\<close> array
  \<open>jac\<^sup>T \<cdot> C \<cdot> jac + lamda \<cdot> Wm\<^sup>T \<cdot> Wm\<close>, where \<open>C\<close> is the weighting supplied, and the
  identity when none is. With no weighting it returns what \<open>get_hessian\<close> of the two
  resistivity scripts returns, \<open>jac\<^sup>T \<cdot> jac + lamda \<cdot> Wm\<^sup>T \<cdot> Wm\<close>.
\<close>

theorem hessian_is_weighted_normal_matrix_plus_regularisation:
  assumes sq: "squeezeComplex mu = mu"
    and jac: "dcip_get_jacobian squeezeComplex mu fop = Inr jac"
    and J: "is_matrix N M jac" and N: "0 < N" and M: "0 < M"
    and W: "is_matrix K M Wm" and K: "0 < K"
    and d: "length log_data = N"
    and C: "case data_cov_inv of None \<Rightarrow> True | Some C \<Rightarrow> is_matrix N N C"
  shows "\<exists>H H0.
           dcip_get_hessian squeezeComplex mu log_data fop Wm lamda data_cov_inv = Inr H
         \<and> is_matrix M M H
         \<and> (\<forall>i<M. \<forall>j<M. H ! i ! j =
               hessian_entry jac (case data_cov_inv of None \<Rightarrow> np_eye N | Some C \<Rightarrow> C)
                 lamda Wm i j)
         \<and> dcip_get_hessian squeezeComplex mu log_data fop Wm lamda None = Inr H0
         \<and> ert_get_hessian (map exp mu) log_data fop Wm lamda = Inr H0
         \<and> (\<forall>i<M. \<forall>j<M. H0 ! i ! j =
               (\<Sum>k<N. jac ! k ! i * jac ! k ! j)
               + lamda * (\<Sum>k<K. Wm ! k ! i * Wm ! k ! j))"
proof -
  have lJ: "length jac = N" and lW: "length Wm = K"
    using J W by (simp_all add: is_matrix_length)
  have general: "\<exists>H. dcip_get_hessian squeezeComplex mu log_data fop Wm lamda cov = Inr H
         \<and> is_matrix M M H
         \<and> (\<forall>i<M. \<forall>j<M. H ! i ! j =
               hessian_entry jac (case cov of None \<Rightarrow> np_eye N | Some C \<Rightarrow> C) lamda Wm i j)"
    if cov: "case cov of None \<Rightarrow> True | Some C \<Rightarrow> is_matrix N N C" for cov
  proof -
    define Cm where "Cm = (case cov of None \<Rightarrow> np_eye N | Some C \<Rightarrow> C)"
    have Cm: "is_matrix N N Cm"
      using cov by (cases cov) (simp_all add: Cm_def np_eye_shape)
    have sel: "(case cov of None \<Rightarrow> np_eye (length log_data) | Some C' \<Rightarrow> C') = Cm"
      by (cases cov) (simp_all add: Cm_def d)
    note P = weighted_normal_matrix[OF J Cm N M]
    from hessian_sum[OF P(2) P(3) W K M, where lamda = lamda]
    obtain H where H: "(case np_matmul (smul_mat lamda (np_T Wm)) Wm of
                Inl e \<Rightarrow> Inl e
              | Inr WtW \<Rightarrow> add_dense_sparse (mat_mul (mat_mul (np_T jac) Cm) jac) WtW) = Inr H"
      "is_matrix M M H"
      "\<forall>i<M. \<forall>j<M. H ! i ! j = mat_mul (mat_mul (np_T jac) Cm) jac ! i ! j
          + lamda * (\<Sum>k<K. Wm ! k ! i * Wm ! k ! j)"
      by blast
    have "dcip_get_hessian squeezeComplex mu log_data fop Wm lamda cov = Inr H"
      unfolding dcip_get_hessian_def jac sel using H(1) by (simp add: P(1) P(2))
    moreover have "H ! i ! j = hessian_entry jac Cm lamda Wm i j" if "i < M" "j < M" for i j
      using H(3) P(4) that by (simp add: hessian_entry_def lJ lW)
    ultimately show ?thesis using H(2) unfolding Cm_def by blast
  qed
  from general[OF C] obtain H where H:
    "dcip_get_hessian squeezeComplex mu log_data fop Wm lamda data_cov_inv = Inr H"
    "is_matrix M M H"
    "\<forall>i<M. \<forall>j<M. H ! i ! j =
       hessian_entry jac (case data_cov_inv of None \<Rightarrow> np_eye N | Some C \<Rightarrow> C) lamda Wm i j"
    by blast
  from general[of None] obtain H0 where H0:
    "dcip_get_hessian squeezeComplex mu log_data fop Wm lamda None = Inr H0"
    "is_matrix M M H0"
    "\<forall>i<M. \<forall>j<M. H0 ! i ! j = hessian_entry jac (np_eye N) lamda Wm i j"
    by auto
  have e0: "H0 ! i ! j = (\<Sum>k<N. jac ! k ! i * jac ! k ! j)
               + lamda * (\<Sum>k<K. Wm ! k ! i * Wm ! k ! j)" if "i < M" "j < M" for i j
    using H0(3) that by (simp add: hessian_entry_def lJ lW identity_weighting)
  note Q = normal_matrix[OF J N M]
  from hessian_sum[OF Q(1) Q(2) W K M, where lamda = lamda]
  obtain H1 where H1: "(case np_matmul (smul_mat lamda (np_T Wm)) Wm of
                Inl e \<Rightarrow> Inl e
              | Inr WtW \<Rightarrow> add_dense_sparse (mat_mul (np_T jac) jac) WtW) = Inr H1"
      "is_matrix M M H1"
      "\<forall>i<M. \<forall>j<M. H1 ! i ! j = mat_mul (np_T jac) jac ! i ! j
          + lamda * (\<Sum>k<K. Wm ! k ! i * Wm ! k ! j)"
    by blast
  have ej: "ert_get_jacobian (map exp mu) fop = Inr jac"
    using ert_jacobian_eq_dcip_jacobian[of squeezeComplex mu fop] sq jac by simp
  have e1: "ert_get_hessian (map exp mu) log_data fop Wm lamda = Inr H1"
    unfolding ert_get_hessian_def ej using H1(1) by (simp add: Q(1))
  have "H1 = H0"
    by (rule matrix_eqI[OF H1(2) H0(2)]) (simp add: H1(3) Q(3) e0)
  with e1 H H0(1) e0 show ?thesis by blast
qed

text \<open>
  On the example operator at \<open>mu = [0]\<close> with \<open>Wm = [[1]]\<close> and \<open>lamda = 20\<close>: the Hessian is
  \<open>[[22]]\<close>.
\<close>

theorem hessian_is_weighted_normal_matrix_plus_regularisation_witness:
  "dcip_get_jacobian (\<lambda>v. v) [0] constant_fit_operator = Inr [[1], [1]]
   \<and> is_matrix 2 1 [[1], [1]] \<and> is_matrix 1 1 [[1]]
   \<and> dcip_get_hessian (\<lambda>v. v) [0] [2, 4] constant_fit_operator [[1]] 20 None = Inr [[22]]
   \<and> ert_get_hessian (map exp [0]) [2, 4] constant_fit_operator [[1]] 20 = Inr [[22]]
   \<and> [[22]] ! 0 ! 0 = hessian_entry [[1], [1]] (np_eye 2) 20 [[1]] 0 0"
proof -
  have sq: "(\<lambda>v::vec. v) [0] = [0]" by simp
  have J: "is_matrix 2 1 [[1], [1]]" and W: "is_matrix 1 1 [[1]]"
    by (simp_all add: is_matrix_def)
  have d: "length [2, 4 :: real] = 2" by simp
  have C: "case None :: mat option of None \<Rightarrow> True | Some C \<Rightarrow> is_matrix 2 2 C" by simp
  from hessian_is_weighted_normal_matrix_plus_regularisation[of "\<lambda>v. v" "[0]"
      constant_fit_operator "[[1], [1]]" 2 1 1 "[[1]]" "[2, 4]" None 20,
      OF sq example_dcip_jacobian J _ _ W _ d C]
  obtain H H0 where a:
    "dcip_get_hessian (\<lambda>v. v) [0] [2, 4] constant_fit_operator [[1]] 20 None = Inr H"
    "\<forall>i<1. \<forall>j<1. H ! i ! j = hessian_entry [[1], [1]] (np_eye 2) 20 [[1]] i j"
    "dcip_get_hessian (\<lambda>v. v) [0] [2, 4] constant_fit_operator [[1]] 20 None = Inr H0"
    "ert_get_hessian (map exp [0]) [2, 4] constant_fit_operator [[1]] 20 = Inr H0"
    by auto
  have h: "H = [[22]]" and h0: "H0 = [[22]]"
    using a(1,3) example_dcip_hessian by simp_all
  have e: "H ! 0 ! 0 = hessian_entry [[1], [1]] (np_eye 2) 20 [[1]] 0 0"
    using a(2) by simp
  note facts = example_dcip_jacobian J W a(1)[unfolded h] a(4)[unfolded h0] e[unfolded h]
  show ?thesis by (intro conjI) (rule facts)+
qed

subsection \<open>Matrices acting on vectors\<close>







subsection \<open>The linear least-squares problem\<close>




lemma map_uminus_smul_vec: "map uminus (smul_vec (- 2) v) = smul_vec 2 v"
  by (simp add: smul_vec_def)














end
